theory Spec2Isabelle
  imports Main
begin

section \<open>Python values, errors and dictionaries\<close>

text \<open>
  The exceptions that the modelled code can raise. \<open>KeyError\<close> is Python's subclass of
  \<open>LookupError\<close> raised by \<open>d[k]\<close> on a missing key; \<open>TypeError\<close> is raised by
  subscripting \<open>None\<close>; \<open>BuildError\<close> stands for whatever \<open>url_for\<close> raises.
\<close>

datatype error = AttributeError | KeyError | TypeError | BuildError

text \<open>The Python values that occur as parameter defaults and as field metadata.\<close>

datatype pyval = VNone | VBool bool | VInt int | VStr string

text \<open>
  A Python \<open>dict\<close> is an association list with unique keys in insertion order:
  \<open>d[k] = v\<close> replaces the value of a key already present in place and appends a new key.
\<close>

type_synonym ('k, 'v) dict = "('k \<times> 'v) list"

fun dict_get :: "('k, 'v) dict \<Rightarrow> 'k \<Rightarrow> 'v option" where
  "dict_get [] k = None"
| "dict_get ((k', v) # d) k = (if k' = k then Some v else dict_get d k)"

fun dict_set :: "('k, 'v) dict \<Rightarrow> 'k \<Rightarrow> 'v \<Rightarrow> ('k, 'v) dict" where
  "dict_set [] k v = [(k, v)]"
| "dict_set ((k', v') # d) k v = (if k' = k then (k, v) # d else (k', v') # dict_set d k v)"

definition keys :: "('k, 'v) dict \<Rightarrow> 'k list" where
  "keys d = map fst d"

text \<open>\<open>d.update(e)\<close>: every item of \<open>e\<close>, in order, is stored into \<open>d\<close>.\<close>

fun dict_update :: "('k, 'v) dict \<Rightarrow> ('k, 'v) dict \<Rightarrow> ('k, 'v) dict" where
  "dict_update d [] = d"
| "dict_update d ((k, v) # e) = dict_update (dict_set d k v) e"

section \<open>Python strings\<close>

text \<open>
  \<open>str.lower\<close>, \<open>str.title\<close>, \<open>str.split\<close> and \<open>str\<close> of an integer, on ASCII text:
  a \<open>string\<close> is a list of bytes, and the bytes outside the ASCII letters are left alone
  and count as uncased.
\<close>

definition is_upper :: "char \<Rightarrow> bool" where
  "is_upper c = (65 \<le> (of_char c :: nat) \<and> (of_char c :: nat) \<le> 90)"

definition is_lower :: "char \<Rightarrow> bool" where
  "is_lower c = (97 \<le> (of_char c :: nat) \<and> (of_char c :: nat) \<le> 122)"

definition to_lower :: "char \<Rightarrow> char" where
  "to_lower c = (if is_upper c then char_of ((of_char c :: nat) + 32) else c)"

definition to_upper :: "char \<Rightarrow> char" where
  "to_upper c = (if is_lower c then char_of ((of_char c :: nat) - 32) else c)"

definition lower :: "string \<Rightarrow> string" where
  "lower s = map to_lower s"

text \<open>
  \<open>str.title\<close>: a cased character that follows a cased character is lowered, any other
  cased character is raised: \<open>"GET".title() == "Get"\<close>, \<open>"a1b".title() == "A1B"\<close>.
\<close>

fun title_from :: "bool \<Rightarrow> string \<Rightarrow> string" where
  "title_from previous_is_cased [] = []"
| "title_from previous_is_cased (c # cs) =
     (if previous_is_cased then to_lower c else to_upper c)
       # title_from (is_upper c \<or> is_lower c) cs"

definition title :: "string \<Rightarrow> string" where
  "title s = title_from False s"

text \<open>
  \<open>s.split(sep)\<close> for a one-character separator: \<open>"".split("/") == [""]\<close>,
  \<open>"/status".split("/") == ["", "status"]\<close>.
\<close>

fun split :: "char \<Rightarrow> string \<Rightarrow> string list" where
  "split sep [] = [[]]"
| "split sep (c # cs) =
     (if c = sep then [] # split sep cs
      else (case split sep cs of [] \<Rightarrow> [[c]] | w # ws \<Rightarrow> (c # w) # ws))"

fun digits :: "nat \<Rightarrow> string" where
  "digits n = (if n < 10 then [char_of (48 + n)] else digits (n div 10) @ [char_of (48 + n mod 10)])"

definition str :: "int \<Rightarrow> string" where
  "str i = (if i < 0 then CHR ''-'' # digits (nat (- i)) else digits (nat i))"

text \<open>
  The name prefix that both schema-naming places compute:
  \<open>"".join([part.title() for part in path_url.split("/")])\<close>.
\<close>

definition url_name :: "string \<Rightarrow> string" where
  "url_name path_url = concat (map title (split CHR ''/'' path_url))"

section \<open>marshmallow fields and schemas\<close>

text \<open>
  The field classes of \<open>webargs.fields\<close> that the program names (\<open>Raw\<close>, \<open>Field\<close>, and
  \<open>String\<close> in the test application), and any other class that is built from keyword
  arguments alone, by its class name.
\<close>

datatype field_class = Raw | Field | String | OtherField string

text \<open>
  A field instance as marshmallow's \<open>Field.__init__\<close> leaves it: \<open>required\<close>, \<open>allow_none\<close>
  (the field accepts \<open>None\<close> only while this attribute is true), and \<open>metadata\<close>,
  the dictionary of every keyword argument that the constructor does not know
  (\<open>location\<close>, \<open>description\<close>, \<open>doc_default\<close>, ...).
\<close>

record field =
  field_class :: field_class
  required :: bool
  allow_none :: bool
  metadata :: "(string, pyval) dict"

definition truthy :: "pyval \<Rightarrow> bool" where
  "truthy v = (case v of VNone \<Rightarrow> False | VBool b \<Rightarrow> b | VInt i \<Rightarrow> i \<noteq> 0 | VStr s \<Rightarrow> s \<noteq> [])"

text \<open>
  \<open>cls(**kwargs)\<close> for the keyword arguments this program passes. marshmallow's
  constructor has \<open>required=False, allow_none=None\<close> and stores
  \<open>self.allow_none = missing is None if allow_none is None else allow_none\<close>; the program
  never passes \<open>missing\<close>, so an \<open>allow_none\<close> that is absent or \<open>None\<close> leaves
  \<open>self.allow_none = False\<close>, and deserialisation then rejects \<open>None\<close>. The other
  keyword arguments become \<open>metadata\<close>.
\<close>

definition Field_init :: "field_class \<Rightarrow> (string, pyval) dict \<Rightarrow> field" where
  "Field_init cls kwargs =
     \<lparr>field_class = cls,
      required = (case dict_get kwargs ''required'' of None \<Rightarrow> False | Some v \<Rightarrow> truthy v),
      allow_none = (case dict_get kwargs ''allow_none'' of None \<Rightarrow> False | Some v \<Rightarrow> truthy v),
      metadata = filter (\<lambda>(k, v). k \<noteq> ''required'' \<and> k \<noteq> ''allow_none'') kwargs\<rparr>"

text \<open>A schema class: its name and its declared fields, in order.\<close>

record schema =
  schema_name :: string
  declared_fields :: "(string, field) dict"

definition from_dict :: "(string, field) dict \<Rightarrow> string \<Rightarrow> schema" where
  "from_dict argmap name = \<lparr>schema_name = name, declared_fields = argmap\<rparr>"

text \<open>\<open>fields.Nested(schema, **kwargs)\<close>: the nested schema and the metadata.\<close>

record nested =
  nested_schema :: schema
  nested_metadata :: "(string, pyval) dict"

text \<open>
  An instance of the local class \<open>ParameterSchema\<close>: its \<open>Meta.include\<close> dictionary, one
  \<open>Nested\<close> field per location.
\<close>

record parameter_schema =
  Meta_include :: "(pyval, nested) dict"

section \<open>Signatures, response objects and the imported tables\<close>

text \<open>
  One \<open>inspect.Parameter\<close>: its name, its annotation and its default.
  \<open>inspect._empty\<close> as an annotation is \<open>empty_annotation\<close>; any other annotation is named
  by its text. \<open>inspect._empty\<close> as a default (no default declared) is \<open>None\<close>.
\<close>

datatype annotation = empty_annotation | Annotation string

record parameter =
  param_name :: string
  param_annotation :: annotation
  param_default :: "pyval option"

text \<open>\<open>func_signature.parameters.items()\<close>, in declaration order.\<close>

type_synonym signature = "parameter list"

text \<open>
  \<open>parameter_object: Union[Dict, Schema]\<close>: a dictionary of fields, or a schema instance,
  which has the attribute \<open>fields\<close>.
\<close>

datatype param_object =
    ParamDict "(string, field) dict"
  | ParamSchema "(string, field) dict"

text \<open>
  A Python object that is given as a response descriptor, is a key or a value of the
  recognised-response-type table, or is the value of a \<open>_name\<close> attribute: \<open>None\<close>, a
  \<open>str\<close>, or an object (a type or an instance) with an identity, an optional \<open>_name\<close>
  attribute, and optional methods \<open>to_schema\<close> and \<open>content_type\<close>, each given by what
  a call returns or raises. Objects are hashable, as types and instances of
  \<open>ResponseObjectInterface\<close> are.
\<close>

datatype pyobj =
    PyNone
  | PyStr string
  | PyObject string "pyobj option" "(error + schema) option" "(error + string) option"

text \<open>\<open>getattr(o, "_name", None)\<close> and \<open>o._name\<close>.\<close>

fun getattr_name :: "pyobj \<Rightarrow> pyobj" where
  "getattr_name (PyObject i (Some n) s c) = n"
| "getattr_name other = PyNone"

fun attr_name :: "pyobj \<Rightarrow> error + pyobj" where
  "attr_name (PyObject i (Some n) s c) = Inr n"
| "attr_name other = Inl AttributeError"

text \<open>\<open>o.to_schema()\<close> and \<open>o.content_type()\<close>: a missing attribute raises \<open>AttributeError\<close>.\<close>

fun call_to_schema :: "pyobj \<Rightarrow> error + schema" where
  "call_to_schema (PyObject i n (Some r) c) = r"
| "call_to_schema other = Inl AttributeError"

fun call_content_type :: "pyobj \<Rightarrow> error + string" where
  "call_content_type (PyObject i n s (Some r)) = r"
| "call_content_type other = Inl AttributeError"

text \<open>
  The tables that the two modules import. \<open>type_field_mapping\<close> and
  \<open>response_object_type_map\<close> are dictionaries of the package's \<open>responses\<close> module, whose
  source is not among the source files, and \<open>responses\<close> is \<open>http.client.responses\<close>,
  the standard library's table of status phrases: all three are parameters.
\<close>

record environment =
  type_field_mapping :: "annotation \<Rightarrow> field_class option"
  response_object_type_map :: "pyobj \<Rightarrow> pyobj option"
  responses :: "int \<Rightarrow> string option"

text \<open>\<open>table[key]\<close>: a missing key raises \<open>KeyError\<close>.\<close>

definition getitem :: "('k \<Rightarrow> 'v option) \<Rightarrow> 'k \<Rightarrow> error + 'v" where
  "getitem table k = (case table k of None \<Rightarrow> Inl KeyError | Some v \<Rightarrow> Inr v)"

text \<open>
  \<open>mimetypes.MimeTypes().types_map[1][".txt"]\<close>: the standard library's entry for
  \<open>.txt\<close> in its table of standard types.
\<close>

definition default_content_type :: string where
  "default_content_type = ''text/plain''"

section \<open>The specification document\<close>

type_synonym tag = "(string, pyval) dict"

text \<open>\<open>{"description": ..., "content": {content_type: {"schema": response_schema}}}\<close>\<close>

record response_entry =
  response_description :: string
  response_content :: "(string, schema) dict"

text \<open>
  \<open>{"in": "query", "name": "test", "schema": parameter_schema}\<close>; the AutoAPI variant
  has no \<open>name\<close>.
\<close>

record parameter_entry =
  entry_in :: string
  entry_name :: "string option"
  entry_schema :: parameter_schema

record operation =
  operation_responses :: "(string, response_entry) dict"
  operation_parameters :: "parameter_entry list"
  operation_summary :: "string option"
  operation_description :: "string option"
  operation_tags :: "tag list"

text \<open>
  An \<open>APISpec\<close> object: what its constructor is given, and its table of paths, each path
  with its operations by lower-case verb.
\<close>

record apispec =
  spec_title :: string
  spec_version :: string
  spec_openapi_version :: string
  spec_info :: "(string, pyval) dict"
  spec_plugins :: "string list"
  paths :: "(string, (string, operation) dict) dict"

text \<open>
  Modelled from the spec: \<open>APISpec.path(path=..., operations=...)\<close> is the apispec
  library's, and its source is not among the source files. Section 4.5 of the spec: the
  registrar
  inserts the operation under its (path, verb) key, and a second registration of the same
  key overwrites the first one. That is the library's storing step,
  \<open>self._paths.setdefault(path, operations).update(operations)\<close>; what the library's
  plugins do to the schemas inside an operation is not modelled.
\<close>

definition path :: "apispec \<Rightarrow> string \<Rightarrow> (string, operation) dict \<Rightarrow> apispec" where
  "path api_spec path_url ops =
     api_spec\<lparr>paths :=
       (case dict_get (paths api_spec) path_url of
          None \<Rightarrow> dict_set (paths api_spec) path_url ops
        | Some existing \<Rightarrow> dict_set (paths api_spec) path_url (dict_update existing ops))\<rparr>"

text \<open>Reading a document: the operation at a path and verb, and all operations.\<close>

definition operation_at :: "apispec \<Rightarrow> string \<Rightarrow> string \<Rightarrow> operation option" where
  "operation_at api_spec path_url verb =
     (case dict_get (paths api_spec) path_url of
        None \<Rightarrow> None
      | Some ops \<Rightarrow> dict_get ops verb)"

definition all_operations :: "apispec \<Rightarrow> operation list" where
  "all_operations api_spec = concat (map (\<lambda>(path_url, ops). map snd ops) (paths api_spec))"

section \<open>AutoMD\<close>

record apispec_options =
  option_title :: string
  option_app_version :: string
  option_openapi_version :: string
  option_info :: "(string, pyval) dict"
  option_plugins :: "string list"

record automd =
  default_tag :: tag
  apispec_options :: apispec_options

text \<open>
  \<open>AutoMD.__init__\<close>; \<open>AutoAPI.__init__\<close> is the same text. \<open>default_tag or title\<close>
  takes the title when the tag is \<open>None\<close> or empty.
\<close>

definition init :: "string \<Rightarrow> string \<Rightarrow> string \<Rightarrow> (string, pyval) dict option \<Rightarrow> string option \<Rightarrow> automd" where
  "init title_arg app_version openapi_version info default_tag_arg =
     \<lparr>default_tag =
        [(''name'', VStr (case default_tag_arg of
                            None \<Rightarrow> title_arg
                          | Some t \<Rightarrow> if t = [] then title_arg else t))],
      apispec_options =
        \<lparr>option_title = title_arg,
         option_app_version = app_version,
         option_openapi_version = openapi_version,
         option_info = (case info of None \<Rightarrow> [] | Some i \<Rightarrow> i),
         option_plugins = [''MarshmallowPlugin'']\<rparr>\<rparr>"

definition start_spec :: "automd \<Rightarrow> apispec" where
  "start_spec self =
     \<lparr>spec_title = option_title (apispec_options self),
      spec_version = option_app_version (apispec_options self),
      spec_openapi_version = option_openapi_version (apispec_options self),
      spec_info = option_info (apispec_options self),
      spec_plugins = option_plugins (apispec_options self),
      paths = []\<rparr>"

subsection \<open>parse_parameter_schema\<close>

text \<open>
  Lines 67 to 87: the loop over the signature that fills \<open>parameter_signature_dict\<close>.
  The value stored under \<open>allow_none\<close> is \<open>param.default\<close>, which is \<open>None\<close> there.
\<close>

fun parameter_signature_dict ::
  "environment \<Rightarrow> signature \<Rightarrow> (string, field) dict \<Rightarrow> error + (string, field) dict" where
  "parameter_signature_dict E [] acc = Inr acc"
| "parameter_signature_dict E (param # rest) acc =
     (if param_name param = ''self'' then parameter_signature_dict E rest acc
      else
        let field_args = [(''required'', VBool (param_default param = None))];
            field_args = (case param_default param of
                            None \<Rightarrow> field_args
                          | Some d \<Rightarrow> dict_set field_args ''doc_default'' d);
            field_args = (case param_default param of
                            None \<Rightarrow> field_args
                          | Some d \<Rightarrow> if d = VNone then dict_set field_args ''allow_none'' d
                                      else field_args)
        in case getitem (type_field_mapping E) (param_annotation param) of
             Inl e \<Rightarrow> Inl e
           | Inr cls \<Rightarrow>
               let field_args = (if cls \<in> set [Raw, Field]
                                 then dict_set field_args ''description''
                                        (VStr ''parameter of unspecified type'')
                                 else field_args)
               in parameter_signature_dict E rest
                    (dict_set acc (param_name param) (Field_init cls field_args)))"

text \<open>\<open>field.metadata.get("location", "query")\<close>\<close>

definition location :: "field \<Rightarrow> pyval" where
  "location fld = (case dict_get (metadata fld) ''location'' of
                     None \<Rightarrow> VStr ''query''
                   | Some l \<Rightarrow> l)"

text \<open>Lines 95 to 101: the loop that fills \<open>location_argmaps\<close>.\<close>

fun location_argmaps ::
  "(string, field) dict \<Rightarrow> (pyval, (string, field) dict) dict \<Rightarrow> (pyval, (string, field) dict) dict" where
  "location_argmaps [] acc = acc"
| "location_argmaps ((name, fld) # rest) acc =
     (let acc = (if dict_get acc (location fld) = None then dict_set acc (location fld) [] else acc)
      in location_argmaps rest
           (dict_set acc (location fld)
              (dict_set (case dict_get acc (location fld) of None \<Rightarrow> [] | Some argmap \<Rightarrow> argmap)
                 name fld)))"

text \<open>\<open>loc.title()\<close>: only a \<open>str\<close> has the method.\<close>

fun loc_title :: "pyval \<Rightarrow> error + string" where
  "loc_title (VStr s) = Inr (title s)"
| "loc_title other = Inl AttributeError"

text \<open>Lines 103 to 110: the loop that fills \<open>location_schemas\<close>.\<close>

fun location_schemas ::
  "string \<Rightarrow> string \<Rightarrow> (pyval, (string, field) dict) dict \<Rightarrow> (pyval, schema) dict
     \<Rightarrow> error + (pyval, schema) dict" where
  "location_schemas path_url http_verb [] acc = Inr acc"
| "location_schemas path_url http_verb ((loc, argmap) # rest) acc =
     (case loc_title loc of
        Inl e \<Rightarrow> Inl e
      | Inr loc_titled \<Rightarrow>
          location_schemas path_url http_verb rest
            (dict_set acc loc
               (from_dict argmap (url_name path_url @ title http_verb @ loc_titled @ ''Schema''))))"

definition parse_parameter_schema ::
  "environment \<Rightarrow> param_object option \<Rightarrow> signature option \<Rightarrow> string \<Rightarrow> string
     \<Rightarrow> error + parameter_schema" where
  "parse_parameter_schema E parameter_object func_signature path_url http_verb =
     (case (case parameter_object of
              Some (ParamDict d) \<Rightarrow> Inr d
            | Some (ParamSchema flds) \<Rightarrow> Inr flds
            | None \<Rightarrow>
                (case func_signature of
                   None \<Rightarrow> Inl AttributeError
                 | Some sig \<Rightarrow> parameter_signature_dict E sig [])) of
        Inl e \<Rightarrow> Inl e
      | Inr parameter_dict \<Rightarrow>
          (case location_schemas path_url http_verb (location_argmaps parameter_dict []) [] of
             Inl e \<Rightarrow> Inl e
           | Inr schemas \<Rightarrow>
               Inr \<lparr>Meta_include =
                      map (\<lambda>(loc, schema).
                             (loc, \<lparr>nested_schema = schema,
                                    nested_metadata = [(''location'', loc), (''name'', loc)]\<rparr>))
                          schemas\<rparr>))"

subsection \<open>parse_response_schema\<close>

text \<open>
  Lines 126 to 132: the value of \<open>response_interface\<close>. \<open>response_object._name\<close> is
  read again in the second branch, after \<open>getattr\<close> with the default \<open>None\<close> found a key.
\<close>

definition response_interface :: "environment \<Rightarrow> pyobj \<Rightarrow> error + pyobj" where
  "response_interface E response_object =
     (if response_object_type_map E response_object \<noteq> None
      then getitem (response_object_type_map E) response_object
      else if response_object_type_map E (getattr_name response_object) \<noteq> None
      then (case attr_name response_object of
              Inl e \<Rightarrow> Inl e
            | Inr n \<Rightarrow> getitem (response_object_type_map E) n)
      else Inr response_object)"

definition parse_response_schema ::
  "environment \<Rightarrow> pyobj \<Rightarrow> string \<Rightarrow> string \<Rightarrow> error + (schema \<times> string)" where
  "parse_response_schema E response_object path_url http_verb =
     (case response_interface E response_object of
        Inl e \<Rightarrow> Inl e
      | Inr interface \<Rightarrow>
          (case (if interface \<noteq> PyNone
                 then call_to_schema interface
                 else Inr (from_dict []
                             (url_name path_url @ title http_verb @ ''ResponseSchema''))) of
             Inl e \<Rightarrow> Inl e
           | Inr response_schema \<Rightarrow>
               (case call_content_type interface of
                  Inr ct \<Rightarrow> Inr (response_schema, ct)
                | Inl e \<Rightarrow>
                    if e = AttributeError then Inr (response_schema, default_content_type)
                    else Inl e)))"

subsection \<open>register_path\<close>

text \<open>
  Lines 180 to 197: the dictionary \<open>operations\<close>, given the status phrase
  \<open>responses[response_code]\<close> and the list under \<open>parameters\<close>, in which alone the two
  variants differ. \<open>tags or [self.default_tag]\<close> takes the default when \<open>tags\<close> is
  \<open>None\<close> or empty.
\<close>

definition operations ::
  "automd \<Rightarrow> string \<Rightarrow> int \<Rightarrow> string \<Rightarrow> string \<Rightarrow> schema \<Rightarrow> parameter_entry list
     \<Rightarrow> string option \<Rightarrow> string option \<Rightarrow> tag list option \<Rightarrow> (string, operation) dict" where
  "operations self http_verb response_code phrase content_type response_schema parameters
     summary description tags =
     [(lower http_verb,
       \<lparr>operation_responses =
          [(str response_code,
            \<lparr>response_description = phrase,
             response_content = [(content_type, response_schema)]\<rparr>)],
        operation_parameters = parameters,
        operation_summary = summary,
        operation_description = description,
        operation_tags =
          (case tags of
             None \<Rightarrow> [default_tag self]
           | Some ts \<Rightarrow> if ts = [] then [default_tag self] else ts)\<rparr>)]"

definition register_path ::
  "automd \<Rightarrow> environment \<Rightarrow> apispec \<Rightarrow> string \<Rightarrow> string \<Rightarrow> int \<Rightarrow> string option
     \<Rightarrow> string option \<Rightarrow> param_object option \<Rightarrow> pyobj \<Rightarrow> signature option
     \<Rightarrow> tag list option \<Rightarrow> error + apispec" where
  "register_path self E api_spec path_url http_verb response_code summary description
     parameter_object response_object func_signature tags =
     (case parse_parameter_schema E parameter_object func_signature path_url http_verb of
        Inl e \<Rightarrow> Inl e
      | Inr parameter_schema \<Rightarrow>
          (case parse_response_schema E response_object path_url http_verb of
             Inl e \<Rightarrow> Inl e
           | Inr (response_schema, content_type) \<Rightarrow>
               (case getitem (responses E) response_code of
                  Inl e \<Rightarrow> Inl e
                | Inr phrase \<Rightarrow>
                    Inr (path api_spec path_url
                           (operations self http_verb response_code phrase content_type
                              response_schema
                              [\<lparr>entry_in = ''query'', entry_name = Some ''test'',
                                entry_schema = parameter_schema\<rparr>]
                              summary description tags)))))"

subsection \<open>application_to_apispec\<close>

text \<open>
  The metadata dictionary that the decorator attaches to a handler under
  \<open>function_key\<close>; \<open>.get(key)\<close> gives \<open>None\<close> for a key that is absent.
\<close>

record endpoint_metadata =
  md_response_schemas :: "(string, pyobj) dict option"
  md_parameter_schema :: "param_object option"
  md_func_signature :: "signature option"
  md_summary :: "string option"
  md_description :: "string option"
  md_tags :: "tag list option"

text \<open>
  What the host framework gives: a view class has an endpoint name and attributes (the
  handler functions by name, each with the metadata when it is decorated); a view
  function may have the attributes \<open>methods\<close>, a collection of verbs taken here in the
  order of iteration, and \<open>view_class\<close>; \<open>url_for\<close> is the framework's and may raise.
\<close>

record view_class =
  endpoint :: string
  attributes :: "(string, endpoint_metadata option) dict"

record view =
  methods :: "string list option"
  view_class :: "view_class option"

record application =
  view_functions :: "(string, view) dict"
  url_for :: "string \<Rightarrow> error + string"

text \<open>\<open>response_schemas["200"]\<close>: \<open>None\<close> is not subscriptable.\<close>

definition response_schemas_200 :: "(string, pyobj) dict option \<Rightarrow> error + pyobj" where
  "response_schemas_200 response_schemas =
     (case response_schemas of
        None \<Rightarrow> Inl TypeError
      | Some d \<Rightarrow> getitem (dict_get d) ''200'')"

text \<open>
  The two loops of \<open>application_to_apispec\<close>, which \<open>AutoMD\<close> (lines 215 to 240) and
  \<open>AutoAPI\<close> (lines 163 to 186) have in the same words; the call of \<open>register_path\<close>,
  with every argument but the response descriptor read from the metadata, is the
  parameter \<open>register\<close>. The loop over \<open>view.methods\<close>:
\<close>

fun register_methods ::
  "(apispec \<Rightarrow> string \<Rightarrow> string \<Rightarrow> endpoint_metadata \<Rightarrow> pyobj \<Rightarrow> error + apispec)
     \<Rightarrow> application \<Rightarrow> view \<Rightarrow> string list \<Rightarrow> apispec \<Rightarrow> error + apispec" where
  "register_methods register app v [] api_spec = Inr api_spec"
| "register_methods register app v (method # rest) api_spec =
     (case view_class v of
        None \<Rightarrow> Inl AttributeError
      | Some cls \<Rightarrow>
          (case url_for app (endpoint cls) of
             Inl e \<Rightarrow> Inl e
           | Inr key \<Rightarrow>
               (case dict_get (attributes cls) (lower method) of
                  None \<Rightarrow> Inl AttributeError
                | Some None \<Rightarrow> register_methods register app v rest api_spec
                | Some (Some spec_parameters) \<Rightarrow>
                    (case response_schemas_200 (md_response_schemas spec_parameters) of
                       Inl e \<Rightarrow> Inl e
                     | Inr response_object \<Rightarrow>
                         (case register api_spec key method spec_parameters response_object of
                            Inl e \<Rightarrow> Inl e
                          | Inr api_spec' \<Rightarrow>
                              register_methods register app v rest api_spec')))))"

text \<open>The loop over \<open>app.view_functions\<close>; a view without \<open>methods\<close> is skipped.\<close>

fun register_views ::
  "(apispec \<Rightarrow> string \<Rightarrow> string \<Rightarrow> endpoint_metadata \<Rightarrow> pyobj \<Rightarrow> error + apispec)
     \<Rightarrow> application \<Rightarrow> (string, view) dict \<Rightarrow> apispec \<Rightarrow> error + apispec" where
  "register_views register app [] api_spec = Inr api_spec"
| "register_views register app ((name, v) # rest) api_spec =
     (case methods v of
        None \<Rightarrow> register_views register app rest api_spec
      | Some ms \<Rightarrow>
          (case register_methods register app v ms api_spec of
             Inl e \<Rightarrow> Inl e
           | Inr api_spec' \<Rightarrow> register_views register app rest api_spec'))"

definition application_to_apispec :: "automd \<Rightarrow> environment \<Rightarrow> application \<Rightarrow> error + apispec" where
  "application_to_apispec self E app =
     register_views
       (\<lambda>automd_spec key method automd_spec_parameters response_object.
          register_path self E automd_spec key method 200
            (md_summary automd_spec_parameters)
            (md_description automd_spec_parameters)
            (md_parameter_schema automd_spec_parameters)
            response_object
            (md_func_signature automd_spec_parameters)
            (md_tags automd_spec_parameters))
       app (view_functions app) (start_spec self)"

section \<open>AutoAPI\<close>

text \<open>
  \<open>AutoAPI.register_path\<close>, with the tables of its own \<open>responses\<close> module in the
  environment. Its lines 88 to 94 are the loop \<open>location_argmaps\<close> and its lines 111 to
  117 are \<open>response_interface\<close>, in the same words as AutoMD's; its \<open>__init__\<close> and
  \<open>start_spec\<close> are AutoMD's too. \<open>dict2schema(argmap)\<close> is webargs's and names the
  schema class \<open>GeneratedSchema\<close>.
\<close>

definition dict2schema :: "(string, field) dict \<Rightarrow> schema" where
  "dict2schema argmap = from_dict argmap ''GeneratedSchema''"

definition autoapi_register_path ::
  "automd \<Rightarrow> environment \<Rightarrow> apispec \<Rightarrow> string \<Rightarrow> string \<Rightarrow> int \<Rightarrow> string option
     \<Rightarrow> string option \<Rightarrow> param_object option \<Rightarrow> pyobj \<Rightarrow> tag list option \<Rightarrow> error + apispec" where
  "autoapi_register_path self E api_spec path_url http_verb response_code summary description
     parameter_object response_object tags =
     (case (case parameter_object of
              Some (ParamDict d) \<Rightarrow> Inr d
            | Some (ParamSchema flds) \<Rightarrow> Inr flds
            | None \<Rightarrow> Inl AttributeError) of
        Inl e \<Rightarrow> Inl e
      | Inr parameter_dict \<Rightarrow>
          let ParameterSchema =
                \<lparr>Meta_include =
                   map (\<lambda>(loc, argmap).
                          (loc, \<lparr>nested_schema = dict2schema argmap,
                                 nested_metadata = [(''location'', loc)]\<rparr>))
                       (location_argmaps parameter_dict [])\<rparr>
          in (case response_interface E response_object of
                Inl e \<Rightarrow> Inl e
              | Inr interface \<Rightarrow>
                  (case call_to_schema interface of
                     Inl e \<Rightarrow> Inl e
                   | Inr response_schema \<Rightarrow>
                       (case (case call_content_type interface of
                                Inr ct \<Rightarrow> Inr ct
                              | Inl e \<Rightarrow> if e = AttributeError then Inr default_content_type
                                         else Inl e) of
                          Inl e \<Rightarrow> Inl e
                        | Inr content_type \<Rightarrow>
                            (case getitem (responses E) response_code of
                               Inl e \<Rightarrow> Inl e
                             | Inr phrase \<Rightarrow>
                                 Inr (path api_spec path_url
                                        (operations self http_verb response_code phrase
                                           content_type response_schema
                                           [\<lparr>entry_in = ''query'', entry_name = None,
                                             entry_schema = ParameterSchema\<rparr>]
                                           summary description tags)))))))"

definition autoapi_application_to_apispec ::
  "automd \<Rightarrow> environment \<Rightarrow> application \<Rightarrow> error + apispec" where
  "autoapi_application_to_apispec self E app =
     register_views
       (\<lambda>autoapi_spec key method autoapi_spec_parameters response_object.
          autoapi_register_path self E autoapi_spec key method 200
            (md_summary autoapi_spec_parameters)
            (md_description autoapi_spec_parameters)
            (md_parameter_schema autoapi_spec_parameters)
            response_object
            (md_tags autoapi_spec_parameters))
       app (view_functions app) (start_spec self)"


section \<open>Example inputs\<close>

definition example_arguments :: "(string, field) dict" where
  "example_arguments =
     [(''text'', \<lparr>field_class = String, required = False, allow_none = False,
                 metadata = [(''description'', VStr ''Text to return''),
                             (''doc_default'', VStr ''Hello AutoMD'')]\<rparr>),
      (''json_text'', \<lparr>field_class = String, required = False, allow_none = False,
                      metadata = [(''location'', VStr ''json'')]\<rparr>),
      (''page'', \<lparr>field_class = OtherField ''Integer'', required = True, allow_none = False,
                 metadata = []\<rparr>)]"

text \<open>
  A response class with both methods, as the classes of the \<open>responses\<close> module are; the
  generic alias \<open>typing.Dict[str, Any]\<close>, whose \<open>_name\<close> is \<open>"Dict"\<close>; a class that
  has \<open>to_schema\<close> and no \<open>content_type\<close>; an object with neither method.
\<close>

definition JSONResponse :: pyobj where
  "JSONResponse =
     PyObject ''JSONResponse'' None
       (Some (Inr \<lparr>schema_name = ''JSONResponseSchema'',
                    declared_fields =
                      [(''response'', \<lparr>field_class = OtherField ''Dict'', required = False,
                                        allow_none = False, metadata = []\<rparr>)]\<rparr>))
       (Some (Inr ''application/json''))"

definition typing_Dict :: pyobj where
  "typing_Dict = PyObject ''typing.Dict[str, typing.Any]'' (Some (PyStr ''Dict'')) None None"

definition SchemaOnly :: pyobj where
  "SchemaOnly =
     PyObject ''SchemaOnly'' None
       (Some (Inr \<lparr>schema_name = ''SchemaOnlySchema'', declared_fields = []\<rparr>))
       None"

definition plain_object :: pyobj where
  "plain_object = PyObject ''object'' None None None"

definition example_environment :: environment where
  "example_environment =
     \<lparr>type_field_mapping =
        [empty_annotation \<mapsto> Raw,
         Annotation ''str'' \<mapsto> String,
         Annotation ''typing.Tuple'' \<mapsto> Raw],
      response_object_type_map =
        [JSONResponse \<mapsto> JSONResponse,
         PyStr ''Dict'' \<mapsto> JSONResponse],
      responses = [200 \<mapsto> ''OK'']\<rparr>"

text \<open>
  The signature \<open>(self, text: str = "Hello AutoMD")\<close> of the spec's scenario; the
  signature \<open>(self, a_tuple: Tuple = None)\<close>, two of the parameters of
  \<open>IntrospectionStatus.post\<close>; a signature whose \<open>self\<close> is annotated with the
  handler's own class, which no table of field classes maps; a signature with a parameter
  of that class.
\<close>

definition hello_signature :: signature where
  "hello_signature =
     [\<lparr>param_name = ''self'', param_annotation = empty_annotation, param_default = None\<rparr>,
      \<lparr>param_name = ''text'', param_annotation = Annotation ''str'',
       param_default = Some (VStr ''Hello AutoMD'')\<rparr>]"

definition tuple_signature :: signature where
  "tuple_signature =
     [\<lparr>param_name = ''self'', param_annotation = empty_annotation, param_default = None\<rparr>,
      \<lparr>param_name = ''a_tuple'', param_annotation = Annotation ''typing.Tuple'',
       param_default = Some VNone\<rparr>]"



text \<open>
  An application in the shape of the test application: a static view without
  \<open>methods\<close>, and the view of a resource class at \<open>/status\<close> whose \<open>get\<close> is decorated
  (no parameter schema, the signature above, a JSON response) and whose \<open>post\<close> is not.
  The second application's \<open>get\<close> has a response only under \<open>"404"\<close>.
\<close>

definition example_automd :: automd where
  "example_automd = init ''App'' ''1.0.0'' ''3.0.0'' None None"

definition example_metadata :: endpoint_metadata where
  "example_metadata =
     \<lparr>md_response_schemas = Some [(''200'', JSONResponse), (''404'', SchemaOnly)],
      md_parameter_schema = None,
      md_func_signature = Some hello_signature,
      md_summary = Some ''Status Endpoint'',
      md_description = None,
      md_tags = None\<rparr>"

definition example_view :: "endpoint_metadata \<Rightarrow> view" where
  "example_view md =
     \<lparr>methods = Some [''GET'', ''POST''],
      view_class = Some \<lparr>endpoint = ''status'', attributes = [(''get'', Some md), (''post'', None)]\<rparr>\<rparr>"

definition example_application :: application where
  "example_application =
     \<lparr>view_functions =
        [(''static'', \<lparr>methods = None, view_class = None\<rparr>),
         (''status'', example_view example_metadata)],
      url_for = (\<lambda>endpoint. Inr (CHR ''/'' # endpoint))\<rparr>"


text \<open>The document that the build of the first application returns.\<close>

definition example_document :: apispec where
  "example_document =
     \<lparr>spec_title = ''App'', spec_version = ''1.0.0'', spec_openapi_version = ''3.0.0'',
      spec_info = [], spec_plugins = [''MarshmallowPlugin''],
      paths =
        [(''/status'',
          [(''get'',
            \<lparr>operation_responses =
               [(''200'',
                 \<lparr>response_description = ''OK'',
                  response_content =
                    [(''application/json'',
                      \<lparr>schema_name = ''JSONResponseSchema'',
                       declared_fields =
                         [(''response'', \<lparr>field_class = OtherField ''Dict'', required = False,
                                           allow_none = False, metadata = []\<rparr>)]\<rparr>)]\<rparr>)],
             operation_parameters =
               [\<lparr>entry_in = ''query'', entry_name = Some ''test'',
                 entry_schema =
                   \<lparr>Meta_include =
                      [(VStr ''query'',
                        \<lparr>nested_schema =
                           \<lparr>schema_name = ''StatusGetQuerySchema'',
                            declared_fields =
                              [(''text'',
                                \<lparr>field_class = String, required = False, allow_none = False,
                                 metadata = [(''doc_default'', VStr ''Hello AutoMD'')]\<rparr>)]\<rparr>,
                         nested_metadata =
                           [(''location'', VStr ''query''), (''name'', VStr ''query'')]\<rparr>)]\<rparr>\<rparr>],
             operation_summary = Some ''Status Endpoint'',
             operation_description = None,
             operation_tags = [[(''name'', VStr ''App'')]]\<rparr>)])]\<rparr>"

text \<open>The example document with the summary of every operation replaced.\<close>

definition overwritten_document :: apispec where
  "overwritten_document =
     example_document\<lparr>paths :=
       map (\<lambda>(path_url, ops).
              (path_url, map (\<lambda>(verb, op). (verb, op\<lparr>operation_summary := Some ''Second''\<rparr>)) ops))
           (paths example_document)\<rparr>"

section \<open>Dictionaries\<close>

lemma dict_get_dict_set: "dict_get (dict_set d k v) k' = (if k' = k then Some v else dict_get d k')"
  by (induction d) auto

lemma dict_get_None_iff: "(dict_get d k = None) = (k \<notin> set (keys d))"
  by (induction d) (auto simp: keys_def image_iff split: if_splits)

lemma dict_get_Some_iff: "distinct (keys d) \<Longrightarrow> (dict_get d k = Some v) = ((k, v) \<in> set d)"
  by (induction d) (auto simp: keys_def image_iff split: if_splits)

lemma keys_dict_set_list:
  "keys (dict_set d k v) = (if k \<in> set (keys d) then keys d else keys d @ [k])"
  by (induction d) (force simp: keys_def)+

lemma keys_dict_set: "set (keys (dict_set d k v)) = insert k (set (keys d))"
  by (auto simp: keys_dict_set_list)

lemma distinct_dict_set: "distinct (keys d) \<Longrightarrow> distinct (keys (dict_set d k v))"
proof (induction d)
  case Nil
  then show ?case by (simp add: keys_def)
next
  case (Cons p d)
  obtain k' v' where p: "p = (k', v')" by (cases p)
  have "k' \<noteq> k \<Longrightarrow> k' \<notin> set (keys (dict_set d k v))"
    using Cons.prems p by (simp add: keys_dict_set) (simp add: keys_def)
  with Cons p show ?case by (auto simp: keys_def)
qed

lemma dict_set_append: "k \<notin> set (keys d) \<Longrightarrow> dict_set d k v = d @ [(k, v)]"
  by (induction d) (auto simp: keys_def)

lemma dict_set_twice: "dict_set (dict_set d k v) k v' = dict_set d k v'"
  by (induction d) auto

lemma dict_update_append:
  "distinct (keys (d @ e)) \<Longrightarrow> dict_update d e = d @ e"
proof (induction e arbitrary: d)
  case Nil
  then show ?case by simp
next
  case (Cons p e)
  obtain k v where p: "p = (k, v)" by (cases p)
  from Cons.prems p have notin: "k \<notin> set (keys d)" by (auto simp: keys_def)
  from Cons.prems p have "distinct (keys ((d @ [(k, v)]) @ e))" by (simp add: keys_def)
  then have "dict_update (d @ [(k, v)]) e = (d @ [(k, v)]) @ e" by (rule Cons.IH)
  with notin p show ?case by (simp add: dict_set_append)
qed

lemma location_argmaps_step:
  "location_argmaps ((name, fld) # rest) acc =
     location_argmaps rest
       (dict_set acc (location fld)
          (dict_set (case dict_get acc (location fld) of None \<Rightarrow> [] | Some argmap \<Rightarrow> argmap) name fld))"
  by (simp add: Let_def dict_get_dict_set dict_set_twice)

lemma distinct_location_argmaps:
  "distinct (keys acc) \<Longrightarrow> distinct (keys (location_argmaps pd acc))"
proof (induction pd arbitrary: acc)
  case Nil
  then show ?case by simp
next
  case (Cons p pd)
  obtain n f where p: "p = (n, f)" by (cases p)
  show ?case unfolding p location_argmaps_step
    by (rule Cons.IH) (rule distinct_dict_set, rule Cons.prems)
qed

lemma location_argmaps_bucket:
  "dict_get (location_argmaps pd acc) l =
     (if filter (\<lambda>(n, f). location f = l) pd = [] then dict_get acc l
      else Some (dict_update (case dict_get acc l of None \<Rightarrow> [] | Some b \<Rightarrow> b)
                   (filter (\<lambda>(n, f). location f = l) pd)))"
proof (induction pd arbitrary: acc)
  case Nil
  then show ?case by simp
next
  case (Cons p pd)
  obtain n f where p: "p = (n, f)" by (cases p)
  show ?case unfolding p location_argmaps_step Cons.IH
    by (simp add: dict_get_dict_set)
qed

lemma filter_keys_distinct:
  "distinct (keys pd) \<Longrightarrow> distinct (keys (filter P pd))"
  by (simp add: keys_def distinct_map_filter)

lemma location_argmaps_mem:
  assumes "distinct (keys pd)"
  shows "((l, b) \<in> set (location_argmaps pd [])) =
           (b \<noteq> [] \<and> b = filter (\<lambda>(n, f). location f = l) pd)"
proof -
  have d: "distinct (keys (location_argmaps pd []))"
    by (rule distinct_location_argmaps) (simp add: keys_def)
  have "dict_update [] (filter (\<lambda>(n, f). location f = l) pd) = filter (\<lambda>(n, f). location f = l) pd"
    using dict_update_append [of "[]" "filter (\<lambda>(n, f). location f = l) pd"]
      filter_keys_distinct [OF assms] by simp
  then show ?thesis
    unfolding dict_get_Some_iff [OF d, symmetric] location_argmaps_bucket
    by auto
qed


lemma same_key_same_field:
  "distinct (keys pd) \<Longrightarrow> (n, f1) \<in> set pd \<Longrightarrow> (n, f2) \<in> set pd \<Longrightarrow> f1 = f2"
  unfolding keys_def by (rule eq_key_imp_eq_value)

lemma bucket_keys_location:
  assumes "distinct (keys pd)" and "(l, b) \<in> set (location_argmaps pd [])" and "n \<in> set (keys b)"
  shows "\<exists>f. (n, f) \<in> set pd \<and> location f = l \<and> dict_get b n = Some f"
proof -
  from assms(1,2) have b: "b = filter (\<lambda>(n, f). location f = l) pd"
    by (simp add: location_argmaps_mem)
  from assms(3) obtain f where f: "(n, f) \<in> set b" by (auto simp: keys_def)
  have "distinct (keys b)" unfolding b by (rule filter_keys_distinct [OF assms(1)])
  then have "dict_get b n = Some f" using f by (simp add: dict_get_Some_iff)
  with f b show ?thesis by auto
qed

lemma field_in_its_bucket:
  assumes "distinct (keys pd)" and "(n, f) \<in> set pd"
  shows "\<exists>b. (location f, b) \<in> set (location_argmaps pd []) \<and> dict_get b n = Some f"
proof -
  let ?b = "filter (\<lambda>(n, f'). location f' = location f) pd"
  from assms(2) have mem: "(n, f) \<in> set ?b" by simp
  then have "?b \<noteq> []" by (auto simp: filter_empty_conv)
  then have 1: "(location f, ?b) \<in> set (location_argmaps pd [])"
    using assms(1) by (simp add: location_argmaps_mem)
  have "distinct (keys ?b)" by (rule filter_keys_distinct [OF assms(1)])
  then have "dict_get ?b n = Some f" using mem by (simp add: dict_get_Some_iff)
  with 1 show ?thesis by blast
qed

lemma buckets_disjoint:
  assumes d: "distinct (keys pd)" and G: "G = location_argmaps pd []"
    and i: "i < length G" and j: "j < length G" and ij: "i \<noteq> j"
  shows "set (keys (snd (G ! i))) \<inter> set (keys (snd (G ! j))) = {}"
proof (rule ccontr)
  assume "set (keys (snd (G ! i))) \<inter> set (keys (snd (G ! j))) \<noteq> {}"
  then obtain n where ni: "n \<in> set (keys (snd (G ! i)))" and nj: "n \<in> set (keys (snd (G ! j)))"
    by auto
  have dG: "distinct (map fst G)"
    using distinct_location_argmaps [of "[]" pd] unfolding G keys_def by simp
  have "(fst (G ! i), snd (G ! i)) \<in> set (location_argmaps pd [])"
    using i unfolding G by simp
  from bucket_keys_location [OF d this ni]
  obtain f1 where f1: "(n, f1) \<in> set pd" "location f1 = fst (G ! i)" by blast
  have "(fst (G ! j), snd (G ! j)) \<in> set (location_argmaps pd [])"
    using j unfolding G by simp
  from bucket_keys_location [OF d this nj]
  obtain f2 where f2: "(n, f2) \<in> set pd" "location f2 = fst (G ! j)" by blast
  from same_key_same_field [OF d f1(1) f2(1)] f1(2) f2(2)
  have "map fst G ! i = map fst G ! j" using i j by simp
  then have "i = j" using nth_eq_iff_index_eq [OF dG, of i j] i j by simp
  with ij show False by simp
qed

lemma bucket_keys_union:
  assumes d: "distinct (keys pd)"
  shows "(\<Union>(l, b) \<in> set (location_argmaps pd []). set (keys b)) = set (keys pd)"
proof (rule set_eqI, rule iffI)
  fix n
  assume "n \<in> (\<Union>(l, b) \<in> set (location_argmaps pd []). set (keys b))"
  then obtain l b where "(l, b) \<in> set (location_argmaps pd [])" "n \<in> set (keys b)" by auto
  from bucket_keys_location [OF d this] show "n \<in> set (keys pd)"
    by (force simp: keys_def)
next
  fix n
  assume "n \<in> set (keys pd)"
  then obtain f where f: "(n, f) \<in> set pd" by (auto simp: keys_def)
  from field_in_its_bucket [OF d f] obtain b
    where b: "(location f, b) \<in> set (location_argmaps pd [])" "dict_get b n = Some f" by blast
  from b(2) have "n \<in> set (keys b)" using dict_get_None_iff [of b n] by auto
  with b(1) show "n \<in> (\<Union>(l, b) \<in> set (location_argmaps pd []). set (keys b))" by blast
qed

lemma field_in_one_bucket:
  assumes d: "distinct (keys pd)" and G: "G = location_argmaps pd []" and f: "(n, f) \<in> set pd"
  shows "\<exists>!i. i < length G \<and> n \<in> set (keys (snd (G ! i)))"
proof (rule ex_ex1I)
  from field_in_its_bucket [OF d f] obtain b
    where b: "(location f, b) \<in> set G" "dict_get b n = Some f" unfolding G by blast
  from b(1) obtain i where i: "i < length G" "G ! i = (location f, b)"
    by (auto simp: in_set_conv_nth)
  from b(2) have "n \<in> set (keys b)" using dict_get_None_iff [of b n] by auto
  with i show "\<exists>i. i < length G \<and> n \<in> set (keys (snd (G ! i)))" by auto
next
  fix i j
  assume "i < length G \<and> n \<in> set (keys (snd (G ! i)))" "j < length G \<and> n \<in> set (keys (snd (G ! j)))"
  then show "i = j" using buckets_disjoint [OF d G, of i j] by auto
qed

lemma location_schemas_fields:
  "location_schemas path_url http_verb G acc = Inr R \<Longrightarrow> distinct (keys acc @ keys G) \<Longrightarrow>
     map (\<lambda>(l, s). (l, declared_fields s)) R = map (\<lambda>(l, s). (l, declared_fields s)) acc @ G"
proof (induction G arbitrary: acc)
  case Nil
  then show ?case by simp
next
  case (Cons p G)
  obtain l b where p: "p = (l, b)" by (cases p)
  from Cons.prems(1) p obtain t where t: "loc_title l = Inr t"
    by (auto split: sum.splits)
  let ?acc = "dict_set acc l (from_dict b (url_name path_url @ title http_verb @ t @ ''Schema''))"
  from Cons.prems(1) p t have R: "location_schemas path_url http_verb G ?acc = Inr R" by simp
  from Cons.prems(2) p have notin: "l \<notin> set (keys acc)" by (auto simp: keys_def)
  then have acc: "?acc = acc @ [(l, from_dict b (url_name path_url @ title http_verb @ t @ ''Schema''))]"
    by (rule dict_set_append)
  from Cons.prems(2) p have "distinct (keys ?acc @ keys G)"
    unfolding acc by (auto simp: keys_def)
  from Cons.IH [OF R this] show ?case unfolding acc p by (simp add: from_dict_def)
qed

lemma location_schemas_succeeds:
  "\<forall>l \<in> set (keys G). \<exists>s. l = VStr s \<Longrightarrow> \<exists>R. location_schemas path_url http_verb G acc = Inr R"
proof (induction G arbitrary: acc)
  case Nil
  then show ?case by simp
next
  case (Cons p G)
  obtain l b where p: "p = (l, b)" by (cases p)
  from Cons.prems p obtain s where s: "l = VStr s" by (auto simp: keys_def)
  from Cons.prems have "\<forall>l \<in> set (keys G). \<exists>s. l = VStr s" by (simp add: keys_def)
  from Cons.IH [OF this] show ?case unfolding p s by simp
qed

lemma location_argmaps_keys:
  "distinct (keys pd) \<Longrightarrow> set (keys (location_argmaps pd [])) = location ` snd ` set pd"
proof (rule set_eqI, rule iffI)
  fix l
  assume d: "distinct (keys pd)" and "l \<in> set (keys (location_argmaps pd []))"
  then obtain b where b: "(l, b) \<in> set (location_argmaps pd [])" by (auto simp: keys_def)
  have "b \<noteq> []" "b = filter (\<lambda>(n, f). location f = l) pd"
    using location_argmaps_mem [OF d, of l b] b by blast+
  then obtain n f where "(n, f) \<in> set pd" "location f = l"
    by (auto simp: filter_empty_conv)
  then show "l \<in> location ` snd ` set pd" by force
next
  fix l
  assume d: "distinct (keys pd)" and "l \<in> location ` snd ` set pd"
  then obtain n f where f: "(n, f) \<in> set pd" "l = location f" by auto
  from field_in_its_bucket [OF d f(1)] f(2) show "l \<in> set (keys (location_argmaps pd []))"
    by (force simp: keys_def)
qed


lemma parse_parameter_schema_buckets:
  assumes d: "distinct (keys pd)"
    and po: "parameter_object = ParamDict pd \<or> parameter_object = ParamSchema pd"
    and ps: "parse_parameter_schema E (Some parameter_object) func_signature path_url http_verb = Inr ps"
  shows "map (\<lambda>(l, n). (l, declared_fields (nested_schema n))) (Meta_include ps)
           = location_argmaps pd []"
proof -
  from po ps obtain R where R: "location_schemas path_url http_verb (location_argmaps pd []) [] = Inr R"
    and psR: "ps = \<lparr>Meta_include = map (\<lambda>(loc, schema).
                             (loc, \<lparr>nested_schema = schema,
                                    nested_metadata = [(''location'', loc), (''name'', loc)]\<rparr>)) R\<rparr>"
    by (auto simp: parse_parameter_schema_def split: sum.splits)
  have "distinct (keys ([] :: (pyval, schema) dict) @ keys (location_argmaps pd []))"
    using distinct_location_argmaps [of "[]" pd] by (simp add: keys_def)
  from location_schemas_fields [OF R this]
  have "map (\<lambda>(l, s). (l, declared_fields s)) R = location_argmaps pd []" by simp
  moreover have "map (\<lambda>(l, n). (l, declared_fields (nested_schema n))) (Meta_include ps)
      = map (\<lambda>(l, s). (l, declared_fields s)) R"
    unfolding psR by (simp add: comp_def case_prod_beta)
  ultimately show ?thesis by simp
qed

lemma parse_parameter_schema_succeeds:
  assumes d: "distinct (keys pd)"
    and po: "parameter_object = ParamDict pd \<or> parameter_object = ParamSchema pd"
    and str: "\<forall>(n, f) \<in> set pd. \<exists>s. location f = VStr s"
  shows "\<exists>ps. parse_parameter_schema E (Some parameter_object) func_signature path_url http_verb = Inr ps"
proof -
  have "\<forall>l \<in> set (keys (location_argmaps pd [])). \<exists>s. l = VStr s"
    unfolding location_argmaps_keys [OF d] using str by auto
  from location_schemas_succeeds [OF this]
  obtain R where "location_schemas path_url http_verb (location_argmaps pd []) [] = Inr R" by blast
  with po show ?thesis by (auto simp: parse_parameter_schema_def)
qed

section \<open>Response objects\<close>



lemma example_table:
  "response_object_type_map example_environment PyNone = None"
  "response_object_type_map example_environment typing_Dict = None"
  "response_object_type_map example_environment (PyStr ''Dict'') = Some JSONResponse"
  "response_object_type_map example_environment JSONResponse = Some JSONResponse"
  "response_object_type_map example_environment SchemaOnly = None"
  "response_object_type_map example_environment plain_object = None"
  by (simp_all add: example_environment_def JSONResponse_def typing_Dict_def SchemaOnly_def
      plain_object_def)

lemma example_objects:
  "getattr_name JSONResponse = PyNone"
  "getattr_name typing_Dict = PyStr ''Dict''"
  "getattr_name SchemaOnly = PyNone"
  "getattr_name plain_object = PyNone"
  "attr_name typing_Dict = Inr (PyStr ''Dict'')"
  "attr_name SchemaOnly = Inl AttributeError"
  "call_to_schema SchemaOnly = Inr \<lparr>schema_name = ''SchemaOnlySchema'', declared_fields = []\<rparr>"
  "call_to_schema plain_object = Inl AttributeError"
  "call_content_type JSONResponse = Inr ''application/json''"
  "call_content_type SchemaOnly = Inl AttributeError"
  "call_content_type plain_object = Inl AttributeError"
  "JSONResponse \<noteq> PyNone"
  "SchemaOnly \<noteq> PyNone"
  "plain_object \<noteq> PyNone"
  by (simp_all add: JSONResponse_def typing_Dict_def SchemaOnly_def plain_object_def)

section \<open>The inference loop\<close>

lemma parameter_signature_dict_other:
  "parameter_signature_dict E sig acc = Inr R \<Longrightarrow> n \<notin> param_name ` set sig \<Longrightarrow>
     dict_get R n = dict_get acc n"
proof (induction sig arbitrary: acc)
  case Nil
  then show ?case by simp
next
  case (Cons p sig)
  show ?case
  proof (cases "param_name p = ''self''")
    case True
    with Cons show ?thesis by simp
  next
    case False
    with Cons.prems(1) obtain cls where cls: "type_field_mapping E (param_annotation p) = Some cls"
      by (auto simp: getitem_def Let_def split: option.splits)
    from Cons.prems(1) False cls obtain fld
      where "parameter_signature_dict E sig (dict_set acc (param_name p) fld) = Inr R"
      by (auto simp: getitem_def Let_def)
    from Cons.IH [OF this] Cons.prems(2)
    show ?thesis by (simp add: dict_get_dict_set)
  qed
qed

lemma parameter_signature_dict_distinct:
  "parameter_signature_dict E sig acc = Inr R \<Longrightarrow> distinct (keys acc) \<Longrightarrow> distinct (keys R)"
proof (induction sig arbitrary: acc)
  case Nil
  then show ?case by simp
next
  case (Cons p sig)
  show ?case
  proof (cases "param_name p = ''self''")
    case True
    with Cons show ?thesis by simp
  next
    case False
    with Cons.prems(1) obtain cls where cls: "type_field_mapping E (param_annotation p) = Some cls"
      by (auto simp: getitem_def Let_def split: option.splits)
    from Cons.prems(1) False cls obtain fld
      where "parameter_signature_dict E sig (dict_set acc (param_name p) fld) = Inr R"
      by (auto simp: getitem_def Let_def)
    from Cons.IH [OF this] Cons.prems(2)
    show ?thesis by (simp add: distinct_dict_set)
  qed
qed

text \<open>What the loop stores for one parameter.\<close>

lemma parameter_signature_dict_field:
  assumes "parameter_signature_dict E sig acc = Inr R"
    and "distinct (map param_name sig)"
    and "p \<in> set sig" and "param_name p \<noteq> ''self''"
  shows "\<exists>cls fld. type_field_mapping E (param_annotation p) = Some cls
           \<and> dict_get R (param_name p) = Some fld
           \<and> field_class fld = cls
           \<and> required fld = (param_default p = None)
           \<and> \<not> allow_none fld
           \<and> dict_get (metadata fld) ''doc_default'' = param_default p
           \<and> dict_get (metadata fld) ''location'' = None"
  using assms
proof (induction sig arbitrary: acc)
  case Nil
  then show ?case by simp
next
  case (Cons q sig)
  show ?case
  proof (cases "param_name q = ''self''")
    case True
    with Cons.prems have "parameter_signature_dict E sig acc = Inr R" "distinct (map param_name sig)"
      "p \<in> set sig" by auto
    from Cons.IH [OF this Cons.prems(4)] show ?thesis .
  next
    case False
    with Cons.prems(1) obtain cls where cls: "type_field_mapping E (param_annotation q) = Some cls"
      by (auto simp: getitem_def Let_def split: option.splits)
    define field_args where "field_args =
      (let field_args = [(''required'', VBool (param_default q = None))];
            field_args = (case param_default q of
                            None \<Rightarrow> field_args
                          | Some d \<Rightarrow> dict_set field_args ''doc_default'' d);
            field_args = (case param_default q of
                            None \<Rightarrow> field_args
                          | Some d \<Rightarrow> if d = VNone then dict_set field_args ''allow_none'' d
                                      else field_args)
       in (if cls \<in> set [Raw, Field]
                                 then dict_set field_args ''description''
                                        (VStr ''parameter of unspecified type'')
                                 else field_args))"
    from Cons.prems(1) False cls
    have rest: "parameter_signature_dict E sig (dict_set acc (param_name q) (Field_init cls field_args)) = Inr R"
      by (simp add: getitem_def Let_def field_args_def)
    show ?thesis
    proof (cases "p = q")
      case True
      from Cons.prems(2) have "param_name q \<notin> param_name ` set sig" by auto
      from parameter_signature_dict_other [OF rest this]
      have get: "dict_get R (param_name q) = Some (Field_init cls field_args)"
        by (simp add: dict_get_dict_set)
      have "field_class (Field_init cls field_args) = cls
           \<and> required (Field_init cls field_args) = (param_default q = None)
           \<and> \<not> allow_none (Field_init cls field_args)
           \<and> dict_get (metadata (Field_init cls field_args)) ''doc_default'' = param_default q
           \<and> dict_get (metadata (Field_init cls field_args)) ''location'' = None"
        by (cases "param_default q")
           (auto simp: Field_init_def field_args_def truthy_def Let_def)
      with cls get show ?thesis unfolding True by simp
    next
      case False
      with Cons.prems have "distinct (map param_name sig)" "p \<in> set sig" by auto
      from Cons.IH [OF rest this Cons.prems(4)] show ?thesis .
    qed
  qed
qed



lemma title_query: "title ''query'' = ''Query''"
  by code_simp

lemma location_argmaps_one_location_acc:
  "\<forall>(n, f) \<in> set pd. location f = l \<Longrightarrow>
     location_argmaps pd [(l, b)] = [(l, dict_update b pd)]"
proof (induction pd arbitrary: b)
  case Nil
  then show ?case by simp
next
  case (Cons p pd)
  obtain n f where p: "p = (n, f)" by (cases p)
  from Cons.prems p have l: "location f = l" and rest: "\<forall>(n, f) \<in> set pd. location f = l" by auto
  show ?case unfolding p location_argmaps_step using Cons.IH [OF rest] l by simp
qed

lemma location_argmaps_one_location:
  assumes "\<forall>(n, f) \<in> set pd. location f = l" and "pd \<noteq> []" and "distinct (keys pd)"
  shows "location_argmaps pd [] = [(l, pd)]"
proof -
  obtain n f rest where pd: "pd = (n, f) # rest" using assms(2) by (cases pd) auto
  from assms(1) pd have l: "location f = l" and rest: "\<forall>(n, f) \<in> set rest. location f = l" by auto
  have "location_argmaps pd [] = [(l, dict_update [(n, f)] rest)]"
    unfolding pd location_argmaps_step using location_argmaps_one_location_acc [OF rest] l by simp
  moreover have "dict_update [(n, f)] rest = [(n, f)] @ rest"
    by (rule dict_update_append) (use assms(3) pd in simp)
  ultimately show ?thesis using pd by simp
qed

lemma inferred_parameter_schema:
  assumes R: "parameter_signature_dict E sig [] = Inr R"
    and d: "distinct (map param_name sig)"
    and ne: "\<exists>p \<in> set sig. param_name p \<noteq> ''self''"
  shows "parse_parameter_schema E None (Some sig) path_url http_verb
           = Inr \<lparr>Meta_include =
                   [(VStr ''query'',
                     \<lparr>nested_schema =
                        \<lparr>schema_name = url_name path_url @ title http_verb @ ''QuerySchema'',
                         declared_fields = R\<rparr>,
                      nested_metadata = [(''location'', VStr ''query''), (''name'', VStr ''query'')]\<rparr>)]\<rparr>"
proof -
  have dR: "distinct (keys R)"
    by (rule parameter_signature_dict_distinct [OF R]) (simp add: keys_def)
  have loc: "\<forall>(n, f) \<in> set R. location f = VStr ''query''"
  proof (clarify)
    fix n f
    assume nf: "(n, f) \<in> set R"
    with dR have get: "dict_get R n = Some f" by (simp add: dict_get_Some_iff)
    have "n \<in> param_name ` set sig"
    proof (rule ccontr)
      assume "n \<notin> param_name ` set sig"
      from parameter_signature_dict_other [OF R this] get show False by simp
    qed
    then obtain p where p: "p \<in> set sig" "n = param_name p" by auto
    have "param_name p \<noteq> ''self''"
    proof
      assume self: "param_name p = ''self''"
      have "\<And>acc R'. parameter_signature_dict E sig acc = Inr R' \<Longrightarrow> distinct (map param_name sig)
              \<Longrightarrow> dict_get R' ''self'' = dict_get acc ''self''"
      proof -
        fix acc R'
        show "parameter_signature_dict E sig acc = Inr R' \<Longrightarrow> distinct (map param_name sig)
              \<Longrightarrow> dict_get R' ''self'' = dict_get acc ''self''"
        proof (induction sig arbitrary: acc)
          case Nil
          then show ?case by simp
        next
          case (Cons q sig)
          show ?case
          proof (cases "param_name q = ''self''")
            case True
            with Cons show ?thesis by simp
          next
            case False
            with Cons.prems(1) obtain cls where "type_field_mapping E (param_annotation q) = Some cls"
              by (auto simp: getitem_def Let_def split: option.splits)
            with Cons.prems(1) False obtain fld
              where "parameter_signature_dict E sig (dict_set acc (param_name q) fld) = Inr R'"
              by (auto simp: getitem_def Let_def)
            from Cons.IH [OF this] Cons.prems(2) False
            show ?thesis by (simp add: dict_get_dict_set)
          qed
        qed
      qed
      from this [OF R d] get p(2) self show False by simp
    qed
    from parameter_signature_dict_field [OF R d p(1) this] get p(2)
    show "location f = VStr ''query''" by (auto simp: location_def)
  qed
  from ne obtain p where p: "p \<in> set sig" "param_name p \<noteq> ''self''" by blast
  from parameter_signature_dict_field [OF R d p] have "R \<noteq> []" by auto
  from location_argmaps_one_location [OF loc this dR]
  show ?thesis
    by (simp add: parse_parameter_schema_def R from_dict_def title_query)
qed

lemma example_mapping:
  "type_field_mapping example_environment empty_annotation = Some Raw"
  "type_field_mapping example_environment (Annotation ''str'') = Some String"
  "type_field_mapping example_environment (Annotation ''typing.Tuple'') = Some Raw"
  "type_field_mapping example_environment (Annotation ''Status'') = None"
  by (simp_all add: example_environment_def)

section \<open>The document and the loops\<close>

lemma set_dict_set: "set (dict_set d k v) \<subseteq> insert (k, v) (set d)"
  by (induction d) (auto split: if_splits)

lemma set_dict_update: "set (dict_update d e) \<subseteq> set d \<union> set e"
proof (induction e arbitrary: d)
  case Nil
  then show ?case by simp
next
  case (Cons p e)
  obtain k v where p: "p = (k, v)" by (cases p)
  from Cons.IH [of "dict_set d k v"] set_dict_set [of d k v]
  show ?case unfolding p by auto
qed

lemma dict_get_in_set: "dict_get d k = Some v \<Longrightarrow> (k, v) \<in> set d"
  by (induction d) (auto split: if_splits)

lemma dict_set_same: "dict_get d k = Some v \<Longrightarrow> dict_set d k v = d"
  by (induction d) (auto split: if_splits)


lemma paths_path:
  "dict_get (paths (path api_spec p ops)) p' =
     (if p' = p
      then Some (case dict_get (paths api_spec) p of None \<Rightarrow> ops | Some existing \<Rightarrow> dict_update existing ops)
      else dict_get (paths api_spec) p')"
  by (simp add: path_def dict_get_dict_set split: option.splits)

lemma operation_at_path:
  "operation_at (path api_spec p [(verb, op)]) p verb = Some op"
  by (simp add: operation_at_def paths_path dict_get_dict_set split: option.splits)

lemma path_twice:
  "path (path api_spec p [(verb, op)]) p [(verb, op)] = path api_spec p [(verb, op)]"
proof -
  let ?doc = "path api_spec p [(verb, op)]"
  obtain m where m: "dict_get (paths ?doc) p = Some m" and op: "dict_get m verb = Some op"
    by (simp add: paths_path dict_get_dict_set split: option.splits)
  have "path ?doc p [(verb, op)] = ?doc\<lparr>paths := dict_set (paths ?doc) p (dict_set m verb op)\<rparr>"
    unfolding path_def [of ?doc] using m by simp
  also have "\<dots> = ?doc\<lparr>paths := paths ?doc\<rparr>"
    using op m by (simp add: dict_set_same)
  finally show ?thesis by simp
qed

lemma in_all_operations:
  "(op \<in> set (all_operations api_spec)) =
     (\<exists>q m verb. (q, m) \<in> set (paths api_spec) \<and> (verb, op) \<in> set m)"
  unfolding all_operations_def by (simp add: image_iff) force

lemma all_operations_path:
  "set (all_operations (path api_spec p ops)) \<subseteq> set (all_operations api_spec) \<union> snd ` set ops"
proof
  fix op
  assume "op \<in> set (all_operations (path api_spec p ops))"
  then obtain q m verb where q: "(q, m) \<in> set (paths (path api_spec p ops))" and v: "(verb, op) \<in> set m"
    unfolding in_all_operations by blast
  show "op \<in> set (all_operations api_spec) \<union> snd ` set ops"
  proof (cases "dict_get (paths api_spec) p")
    case None
    then have "paths (path api_spec p ops) = dict_set (paths api_spec) p ops"
      by (simp add: path_def)
    with q have "(q, m) = (p, ops) \<or> (q, m) \<in> set (paths api_spec)"
      using set_dict_set [of "paths api_spec" p ops] by auto
    then show ?thesis
    proof
      assume "(q, m) = (p, ops)"
      with v have "op \<in> snd ` set ops" by force
      then show ?thesis by simp
    next
      assume "(q, m) \<in> set (paths api_spec)"
      with v have "op \<in> set (all_operations api_spec)" unfolding in_all_operations by blast
      then show ?thesis by simp
    qed
  next
    case (Some existing)
    then have "paths (path api_spec p ops) = dict_set (paths api_spec) p (dict_update existing ops)"
      by (simp add: path_def)
    with q have "(q, m) = (p, dict_update existing ops) \<or> (q, m) \<in> set (paths api_spec)"
      using set_dict_set [of "paths api_spec" p "dict_update existing ops"] by auto
    then show ?thesis
    proof
      assume "(q, m) = (p, dict_update existing ops)"
      with v have "(verb, op) \<in> set existing \<or> (verb, op) \<in> set ops"
        using set_dict_update [of existing ops] by auto
      then show ?thesis
      proof
        assume e: "(verb, op) \<in> set existing"
        have "(p, existing) \<in> set (paths api_spec)" using Some by (rule dict_get_in_set)
        with e have "op \<in> set (all_operations api_spec)" unfolding in_all_operations by blast
        then show ?thesis by simp
      next
        assume "(verb, op) \<in> set ops"
        then have "op \<in> snd ` set ops" by force
        then show ?thesis by simp
      qed
    next
      assume "(q, m) \<in> set (paths api_spec)"
      with v have "op \<in> set (all_operations api_spec)" unfolding in_all_operations by blast
      then show ?thesis by simp
    qed
  qed
qed

lemma register_path_Inr:
  "(register_path self E api_spec path_url http_verb response_code summary description
      parameter_object response_object func_signature tags = Inr api_spec') =
   (\<exists>ps rs ct phrase.
      parse_parameter_schema E parameter_object func_signature path_url http_verb = Inr ps
      \<and> parse_response_schema E response_object path_url http_verb = Inr (rs, ct)
      \<and> responses E response_code = Some phrase
      \<and> api_spec' = path api_spec path_url
                       (operations self http_verb response_code phrase ct rs
                          [\<lparr>entry_in = ''query'', entry_name = Some ''test'', entry_schema = ps\<rparr>]
                          summary description tags))"
  by (auto simp: register_path_def getitem_def split: sum.splits option.splits prod.splits)

lemma operations_singleton:
  "\<exists>op. operations self http_verb response_code phrase ct rs ps summary description tags
           = [(lower http_verb, op)]
       \<and> operation_tags op \<noteq> []
       \<and> (tags = None \<longrightarrow> operation_tags op = [default_tag self])
       \<and> keys (operation_responses op) = [str response_code]"
  by (simp add: operations_def keys_def split: option.splits)

text \<open>A property of documents that every registration keeps is kept by the loops.\<close>

lemma register_methods_invariant:
  assumes "\<And>api_spec key method md ro api_spec'.
             register api_spec key method md ro = Inr api_spec' \<Longrightarrow> P api_spec \<Longrightarrow> P api_spec'"
  shows "register_methods register app v ms api_spec = Inr api_spec' \<Longrightarrow> P api_spec \<Longrightarrow> P api_spec'"
proof (induction ms arbitrary: api_spec)
  case Nil
  then show ?case by simp
next
  case (Cons m ms)
  from Cons.prems(1) obtain cls key h where cls: "view_class v = Some cls"
    and key: "url_for app (endpoint cls) = Inr key"
    and h: "dict_get (attributes cls) (lower m) = Some h"
    by (auto split: option.splits sum.splits)
  show ?case
  proof (cases h)
    case None
    with Cons.prems(1) cls key h have "register_methods register app v ms api_spec = Inr api_spec'"
      by simp
    from Cons.IH [OF this Cons.prems(2)] show ?thesis .
  next
    case (Some md)
    with Cons.prems(1) cls key h obtain ro mid where
      "register api_spec key m md ro = Inr mid" "register_methods register app v ms mid = Inr api_spec'"
      by (auto split: sum.splits)
    from Cons.IH [OF this(2) assms [OF this(1) Cons.prems(2)]] show ?thesis .
  qed
qed

lemma register_views_invariant:
  assumes "\<And>api_spec key method md ro api_spec'.
             register api_spec key method md ro = Inr api_spec' \<Longrightarrow> P api_spec \<Longrightarrow> P api_spec'"
  shows "register_views register app vs api_spec = Inr api_spec' \<Longrightarrow> P api_spec \<Longrightarrow> P api_spec'"
proof (induction vs arbitrary: api_spec)
  case Nil
  then show ?case by simp
next
  case (Cons p vs)
  obtain name v where p: "p = (name, v)" by (cases p)
  show ?case
  proof (cases "methods v")
    case None
    with Cons.prems(1) p have "register_views register app vs api_spec = Inr api_spec'" by simp
    from Cons.IH [OF this Cons.prems(2)] show ?thesis .
  next
    case (Some ms)
    with Cons.prems(1) p obtain mid where
      "register_methods register app v ms api_spec = Inr mid"
      "register_views register app vs mid = Inr api_spec'"
      by (auto split: sum.splits)
    from Cons.IH [OF this(2) register_methods_invariant [of register P, OF assms this(1) Cons.prems(2)]]
    show ?thesis .
  qed
qed

lemma path_keeps_tags:
  assumes "\<forall>op \<in> set (all_operations api_spec). operation_tags op \<noteq> []"
  shows "\<forall>op \<in> set (all_operations
                     (path api_spec path_url
                        (operations self http_verb response_code phrase ct rs ps summary
                           description tags))).
           operation_tags op \<noteq> []"
proof
  fix op
  assume op: "op \<in> set (all_operations
                     (path api_spec path_url
                        (operations self http_verb response_code phrase ct rs ps summary
                           description tags)))"
  from operations_singleton [of self http_verb response_code phrase ct rs ps summary description tags]
  obtain new where new: "operations self http_verb response_code phrase ct rs ps summary
                           description tags = [(lower http_verb, new)]"
    "operation_tags new \<noteq> []" by blast
  from op all_operations_path [of api_spec path_url "[(lower http_verb, new)]"]
  have "op \<in> set (all_operations api_spec) \<or> op = new" unfolding new(1) by auto
  with assms new(2) show "operation_tags op \<noteq> []" by auto
qed

lemma register_path_keeps_tags:
  assumes "register_path self E api_spec path_url http_verb response_code summary description
      parameter_object response_object func_signature tags = Inr api_spec'"
    and "\<forall>op \<in> set (all_operations api_spec). operation_tags op \<noteq> []"
  shows "\<forall>op \<in> set (all_operations api_spec'). operation_tags op \<noteq> []"
proof -
  from assms(1) obtain ps rs ct phrase where
    "api_spec' = path api_spec path_url
                   (operations self http_verb response_code phrase ct rs
                      [\<lparr>entry_in = ''query'', entry_name = Some ''test'', entry_schema = ps\<rparr>]
                      summary description tags)"
    unfolding register_path_Inr by blast
  with path_keeps_tags [OF assms(2)] show ?thesis by simp
qed

lemma autoapi_register_path_Inr:
  "autoapi_register_path self E api_spec path_url http_verb response_code summary description
      parameter_object response_object tags = Inr api_spec' \<Longrightarrow>
   \<exists>ps rs ct phrase.
      api_spec' = path api_spec path_url
                    (operations self http_verb response_code phrase ct rs ps summary description tags)"
  by (auto simp: autoapi_register_path_def Let_def split: sum.splits option.splits param_object.splits)

lemma autoapi_register_path_keeps_tags:
  assumes "autoapi_register_path self E api_spec path_url http_verb response_code summary
      description parameter_object response_object tags = Inr api_spec'"
    and "\<forall>op \<in> set (all_operations api_spec). operation_tags op \<noteq> []"
  shows "\<forall>op \<in> set (all_operations api_spec'). operation_tags op \<noteq> []"
proof -
  from autoapi_register_path_Inr [OF assms(1)] obtain ps rs ct phrase where
    "api_spec' = path api_spec path_url
                   (operations self http_verb response_code phrase ct rs ps summary description tags)"
    by blast
  with path_keeps_tags [OF assms(2)] show ?thesis by simp
qed

lemma example_build:
  "application_to_apispec example_automd example_environment example_application = Inr example_document"
  by code_simp

lemma example_registration:
  "register_path example_automd example_environment (start_spec example_automd) ''/status'' ''GET''
     200 (Some ''Status Endpoint'') None None JSONResponse (Some hello_signature) None
     = Inr example_document"
  "register_path example_automd example_environment (start_spec example_automd) ''/status'' ''get''
     200 (Some ''Second'') None None JSONResponse (Some hello_signature) None
     = Inr overwritten_document"
  "lower ''get'' = lower ''GET''"
  by code_simp+

section \<open>The build\<close>










section \<open>Claims\<close>

text \<open>
  C1. The loop that fills \<open>location_argmaps\<close> partitions the fields it is given. For a
  dictionary of fields (its keys are unique, as the keys of a Python dictionary are) that
  is passed to \<open>parse_parameter_schema\<close> as a dictionary or as a schema, and the grouping
  \<open>G\<close> that the loop computes: the field names of all buckets together are the given
  field names; two different buckets share no field name; every field is in exactly one
  bucket, the bucket of its location, and in the bucket \<open>query\<close> when its metadata has no
  \<open>location\<close>; the composite schema that \<open>parse_parameter_schema\<close> returns has exactly
  these buckets, and it returns one whenever every location is a string; for no fields it
  returns the composite schema with no bucket.
\<close>

theorem grouping_is_partition:
  assumes "distinct (keys parameter_dict)"
    and "parameter_object = ParamDict parameter_dict \<or> parameter_object = ParamSchema parameter_dict"
    and "G = location_argmaps parameter_dict []"
  shows "(\<Union>(l, b) \<in> set G. set (keys b)) = set (keys parameter_dict)
       \<and> (\<forall>i < length G. \<forall>j < length G. i \<noteq> j \<longrightarrow>
            set (keys (snd (G ! i))) \<inter> set (keys (snd (G ! j))) = {})
       \<and> (\<forall>(n, f) \<in> set parameter_dict. \<exists>!i. i < length G \<and> n \<in> set (keys (snd (G ! i))))
       \<and> (\<forall>(n, f) \<in> set parameter_dict. \<exists>b. (location f, b) \<in> set G \<and> dict_get b n = Some f)
       \<and> (\<forall>(n, f) \<in> set parameter_dict. dict_get (metadata f) ''location'' = None \<longrightarrow>
            (\<exists>b. (VStr ''query'', b) \<in> set G \<and> dict_get b n = Some f))
       \<and> (\<forall>ps. parse_parameter_schema E (Some parameter_object) func_signature path_url http_verb = Inr ps
            \<longrightarrow> map (\<lambda>(l, n). (l, declared_fields (nested_schema n))) (Meta_include ps) = G)
       \<and> ((\<forall>(n, f) \<in> set parameter_dict. \<exists>s. location f = VStr s) \<longrightarrow>
            (\<exists>ps. parse_parameter_schema E (Some parameter_object) func_signature path_url http_verb = Inr ps))
       \<and> parse_parameter_schema E (Some (ParamDict [])) func_signature path_url http_verb
            = Inr \<lparr>Meta_include = []\<rparr>"
proof (intro conjI)
  show "(\<Union>(l, b) \<in> set G. set (keys b)) = set (keys parameter_dict)"
    unfolding assms(3) by (rule bucket_keys_union [OF assms(1)])
  show "\<forall>i < length G. \<forall>j < length G. i \<noteq> j \<longrightarrow>
          set (keys (snd (G ! i))) \<inter> set (keys (snd (G ! j))) = {}"
    using buckets_disjoint [OF assms(1) assms(3)] by blast
  show "\<forall>(n, f) \<in> set parameter_dict. \<exists>!i. i < length G \<and> n \<in> set (keys (snd (G ! i)))"
    using field_in_one_bucket [OF assms(1) assms(3)] by blast
  show inb: "\<forall>(n, f) \<in> set parameter_dict. \<exists>b. (location f, b) \<in> set G \<and> dict_get b n = Some f"
    unfolding assms(3) using field_in_its_bucket [OF assms(1)] by blast
  show "\<forall>(n, f) \<in> set parameter_dict. dict_get (metadata f) ''location'' = None \<longrightarrow>
          (\<exists>b. (VStr ''query'', b) \<in> set G \<and> dict_get b n = Some f)"
  proof (clarify)
    fix n f
    assume f: "(n, f) \<in> set parameter_dict" and "dict_get (metadata f) ''location'' = None"
    then have "location f = VStr ''query''" by (simp add: location_def)
    with inb f show "\<exists>b. (VStr ''query'', b) \<in> set G \<and> dict_get b n = Some f" by fastforce
  qed
  show "\<forall>ps. parse_parameter_schema E (Some parameter_object) func_signature path_url http_verb = Inr ps
          \<longrightarrow> map (\<lambda>(l, n). (l, declared_fields (nested_schema n))) (Meta_include ps) = G"
    unfolding assms(3) using parse_parameter_schema_buckets [OF assms(1) assms(2)] by blast
  show "(\<forall>(n, f) \<in> set parameter_dict. \<exists>s. location f = VStr s) \<longrightarrow>
          (\<exists>ps. parse_parameter_schema E (Some parameter_object) func_signature path_url http_verb = Inr ps)"
    using parse_parameter_schema_succeeds [OF assms(1) assms(2)] by blast
  show "parse_parameter_schema E (Some (ParamDict [])) func_signature path_url http_verb
          = Inr \<lparr>Meta_include = []\<rparr>"
    by (simp add: parse_parameter_schema_def)
qed

text \<open>
  The theorem at three fields, one of them with the location \<open>json\<close>: two buckets.
\<close>

theorem grouping_is_partition_witness:
  "distinct (keys example_arguments)
   \<and> location_argmaps example_arguments []
       = [(VStr ''query'', [example_arguments ! 0, example_arguments ! 2]),
          (VStr ''json'', [example_arguments ! 1])]
   \<and> (\<Union>(l, b) \<in> set (location_argmaps example_arguments []). set (keys b))
       = {''text'', ''json_text'', ''page''}
   \<and> (\<exists>ps. parse_parameter_schema example_environment (Some (ParamDict example_arguments)) None ''/status'' ''POST'' = Inr ps
          \<and> map (\<lambda>(l, n). (l, declared_fields (nested_schema n))) (Meta_include ps)
              = location_argmaps example_arguments [])"
proof -
  have d: "distinct (keys example_arguments)"
    by (simp add: example_arguments_def keys_def)
  have g: "location_argmaps example_arguments []
       = [(VStr ''query'', [example_arguments ! 0, example_arguments ! 2]),
          (VStr ''json'', [example_arguments ! 1])]"
    by (simp add: example_arguments_def location_def)
  have k: "set (keys example_arguments) = {''text'', ''json_text'', ''page''}"
    by (auto simp: example_arguments_def keys_def)
  have s: "\<forall>(n, f) \<in> set example_arguments. \<exists>s. location f = VStr s"
    by (simp add: example_arguments_def location_def)
  note t = grouping_is_partition [OF d disjI1 [OF refl] refl,
      of example_environment None "''/status''" "''POST''"]
  from t have u: "(\<Union>(l, b) \<in> set (location_argmaps example_arguments []). set (keys b))
       = set (keys example_arguments)" by blast
  from t s have "\<exists>ps. parse_parameter_schema example_environment (Some (ParamDict example_arguments)) None ''/status'' ''POST'' = Inr ps"
    by blast
  moreover from t have "\<forall>ps. parse_parameter_schema example_environment (Some (ParamDict example_arguments)) None ''/status'' ''POST'' = Inr ps
          \<longrightarrow> map (\<lambda>(l, n). (l, declared_fields (nested_schema n))) (Meta_include ps)
              = location_argmaps example_arguments []" by blast
  ultimately have "\<exists>ps. parse_parameter_schema example_environment (Some (ParamDict example_arguments)) None ''/status'' ''POST'' = Inr ps
          \<and> map (\<lambda>(l, n). (l, declared_fields (nested_schema n))) (Meta_include ps)
              = location_argmaps example_arguments []" by blast
  with d g u k show ?thesis by (intro conjI) simp_all
qed



text \<open>
  C3, as stated, fails for an interface that has neither \<open>content_type\<close> nor
  \<open>to_schema\<close>: line 136 asks a non-null interface for its schema before line 143
  asks it for a content type, and the \<open>AttributeError\<close> of line 136 is not caught.
\<close>

theorem missing_content_type_counterexample:
  "response_interface example_environment plain_object = Inr plain_object
   \<and> call_content_type plain_object = Inl AttributeError
   \<and> parse_response_schema example_environment plain_object ''/status'' ''GET''
       = Inl AttributeError"
  by (simp add: parse_response_schema_def response_interface_def example_table example_objects)

text \<open>
  C3, amended. When asking the resolved interface for a content type raises
  \<open>AttributeError\<close>: for the null interface the result is the synthesised empty
  schema with \<open>text/plain\<close>; for an interface whose \<open>to_schema\<close> returns a schema
  the result is that schema with \<open>text/plain\<close>; for an interface whose \<open>to_schema\<close>
  raises, \<open>parse_response_schema\<close> raises that error; and every content type that is
  returned is \<open>text/plain\<close>, a non-empty string.
\<close>

theorem missing_content_type_default:
  assumes "response_interface E d = Inr interface"
    and "call_content_type interface = Inl AttributeError"
  shows "(interface = PyNone \<longrightarrow>
            parse_response_schema E d path_url http_verb
              = Inr (from_dict [] (url_name path_url @ title http_verb @ ''ResponseSchema''),
                     ''text/plain''))
       \<and> (\<forall>s. interface \<noteq> PyNone \<and> call_to_schema interface = Inr s \<longrightarrow>
            parse_response_schema E d path_url http_verb = Inr (s, ''text/plain''))
       \<and> (\<forall>e. interface \<noteq> PyNone \<and> call_to_schema interface = Inl e \<longrightarrow>
            parse_response_schema E d path_url http_verb = Inl e)
       \<and> (\<forall>s ct. parse_response_schema E d path_url http_verb = Inr (s, ct) \<longrightarrow>
            ct = ''text/plain'' \<and> ct \<noteq> [])"
  using assms
  by (auto simp: parse_response_schema_def default_content_type_def split: sum.splits if_splits)

text \<open>The theorem at a class that has \<open>to_schema\<close> and no \<open>content_type\<close>.\<close>

theorem missing_content_type_default_witness:
  "response_interface example_environment SchemaOnly = Inr SchemaOnly
   \<and> call_content_type SchemaOnly = Inl AttributeError
   \<and> parse_response_schema example_environment SchemaOnly ''/status'' ''GET''
       = Inr (\<lparr>schema_name = ''SchemaOnlySchema'', declared_fields = []\<rparr>, ''text/plain'')"
proof -
  have 1: "response_interface example_environment SchemaOnly = Inr SchemaOnly"
    by (simp add: response_interface_def example_table example_objects)
  note 2 = example_objects(10)
  have 3: "SchemaOnly \<noteq> PyNone \<and> call_to_schema SchemaOnly
             = Inr \<lparr>schema_name = ''SchemaOnlySchema'', declared_fields = []\<rparr>"
    by (simp add: example_objects)
  from missing_content_type_default [OF 1 2, of "''/status''" "''GET''"] 3
  have "parse_response_schema example_environment SchemaOnly ''/status'' ''GET''
       = Inr (\<lparr>schema_name = ''SchemaOnlySchema'', declared_fields = []\<rparr>, ''text/plain'')"
    by blast
  with 1 2 show ?thesis by blast
qed



text \<open>
  C5 does not hold of the code. For the parameter \<open>a_tuple: Tuple = None\<close> line 81 stores
  \<open>param.default\<close>, that is \<open>None\<close>, under \<open>allow_none\<close>, and a field built with
  \<open>allow_none=None\<close> has \<open>allow_none\<close> false: the inferred field does not accept
  \<open>None\<close>. The default is recorded as \<open>doc_default\<close> all the same.
\<close>

theorem default_none_not_nullable:
  "parse_parameter_schema example_environment None (Some tuple_signature) ''/introspection'' ''POST''
     = Inr \<lparr>Meta_include =
             [(VStr ''query'',
               \<lparr>nested_schema =
                  \<lparr>schema_name = ''IntrospectionPostQuerySchema'',
                   declared_fields =
                     [(''a_tuple'',
                       \<lparr>field_class = Raw, required = False, allow_none = False,
                        metadata = [(''doc_default'', VNone),
                                    (''description'', VStr ''parameter of unspecified type'')]\<rparr>)]\<rparr>,
                nested_metadata = [(''location'', VStr ''query''), (''name'', VStr ''query'')]\<rparr>)]\<rparr>"
proof -
  have R: "parameter_signature_dict example_environment tuple_signature []
             = Inr [(''a_tuple'',
                       \<lparr>field_class = Raw, required = False, allow_none = False,
                        metadata = [(''doc_default'', VNone),
                                    (''description'', VStr ''parameter of unspecified type'')]\<rparr>)]"
    by (simp add: tuple_signature_def example_mapping getitem_def Field_init_def truthy_def)
  have d: "distinct (map param_name tuple_signature)" by (simp add: tuple_signature_def)
  have ne: "\<exists>p \<in> set tuple_signature. param_name p \<noteq> ''self''" by (simp add: tuple_signature_def)
  have t: "url_name ''/introspection'' @ title ''POST'' @ ''QuerySchema'' = ''IntrospectionPostQuerySchema''"
    by code_simp
  from inferred_parameter_schema [OF R d ne, of "''/introspection''" "''POST''"]
  show ?thesis unfolding t .
qed




text \<open>
  C7. Every operation of the document that a build returns (\<open>application_to_apispec\<close>,
  of either variant) has a non-empty \<open>tags\<close> list; \<open>register_path\<close> keeps that property
  of a document; when \<open>register_path\<close> is given no tags, the operation it stores has the
  one tag \<open>self.default_tag\<close>, which \<open>__init__\<close> makes \<open>{"name": default_tag}\<close>, or
  \<open>{"name": title}\<close> when the default tag is not given or is empty.
\<close>

theorem registered_operations_have_tags:
  "(\<forall>api_spec.
      application_to_apispec self E app = Inr api_spec
      \<or> autoapi_application_to_apispec self E app = Inr api_spec
      \<longrightarrow> (\<forall>op \<in> set (all_operations api_spec). operation_tags op \<noteq> []))
   \<and> (\<forall>api_spec'.
        register_path self E api_spec path_url http_verb response_code summary description
          parameter_object response_object func_signature tags = Inr api_spec'
        \<and> (\<forall>op \<in> set (all_operations api_spec). operation_tags op \<noteq> [])
        \<longrightarrow> (\<forall>op \<in> set (all_operations api_spec'). operation_tags op \<noteq> []))
   \<and> (\<forall>api_spec'.
        register_path self E api_spec path_url http_verb response_code summary description
          parameter_object response_object func_signature None = Inr api_spec'
        \<longrightarrow> (\<exists>op. operation_at api_spec' path_url (lower http_verb) = Some op
                  \<and> operation_tags op = [default_tag self]))
   \<and> default_tag (init title_arg app_version openapi_version info None) = [(''name'', VStr title_arg)]
   \<and> default_tag (init title_arg app_version openapi_version info (Some [])) = [(''name'', VStr title_arg)]
   \<and> (\<forall>t. t \<noteq> [] \<longrightarrow>
        default_tag (init title_arg app_version openapi_version info (Some t)) = [(''name'', VStr t)])"
proof (intro conjI allI impI)
  fix api_spec
  assume b: "application_to_apispec self E app = Inr api_spec
      \<or> autoapi_application_to_apispec self E app = Inr api_spec"
  have start: "\<forall>op \<in> set (all_operations (start_spec self)). operation_tags op \<noteq> []"
    by (simp add: all_operations_def start_spec_def)
  from b show "\<forall>op \<in> set (all_operations api_spec). operation_tags op \<noteq> []"
  proof
    assume build: "application_to_apispec self E app = Inr api_spec"
    show ?thesis
      by (rule register_views_invariant
            [where P = "\<lambda>d. \<forall>op \<in> set (all_operations d). operation_tags op \<noteq> []",
             OF _ build [unfolded application_to_apispec_def] start])
         (rule register_path_keeps_tags)
  next
    assume build: "autoapi_application_to_apispec self E app = Inr api_spec"
    show ?thesis
      by (rule register_views_invariant
            [where P = "\<lambda>d. \<forall>op \<in> set (all_operations d). operation_tags op \<noteq> []",
             OF _ build [unfolded autoapi_application_to_apispec_def] start])
         (rule autoapi_register_path_keeps_tags)
  qed
next
  fix api_spec'
  assume "register_path self E api_spec path_url http_verb response_code summary description
          parameter_object response_object func_signature tags = Inr api_spec'
        \<and> (\<forall>op \<in> set (all_operations api_spec). operation_tags op \<noteq> [])"
  then show "\<forall>op \<in> set (all_operations api_spec'). operation_tags op \<noteq> []"
    using register_path_keeps_tags by blast
next
  fix api_spec'
  assume "register_path self E api_spec path_url http_verb response_code summary description
          parameter_object response_object func_signature None = Inr api_spec'"
  then obtain ps rs ct phrase where
    doc: "api_spec' = path api_spec path_url
                       (operations self http_verb response_code phrase ct rs
                          [\<lparr>entry_in = ''query'', entry_name = Some ''test'', entry_schema = ps\<rparr>]
                          summary description None)"
    unfolding register_path_Inr by blast
  from operations_singleton [of self http_verb response_code phrase ct rs _ summary description None]
  obtain new where new: "operations self http_verb response_code phrase ct rs
                          [\<lparr>entry_in = ''query'', entry_name = Some ''test'', entry_schema = ps\<rparr>]
                          summary description None = [(lower http_verb, new)]"
    "operation_tags new = [default_tag self]" by blast
  show "\<exists>op. operation_at api_spec' path_url (lower http_verb) = Some op
                  \<and> operation_tags op = [default_tag self]"
    unfolding doc new(1) using new(2) by (simp add: operation_at_path)
next
  show "default_tag (init title_arg app_version openapi_version info None) = [(''name'', VStr title_arg)]"
    by (simp add: init_def)
next
  show "default_tag (init title_arg app_version openapi_version info (Some [])) = [(''name'', VStr title_arg)]"
    by (simp add: init_def)
next
  fix t :: string
  assume "t \<noteq> []"
  then show "default_tag (init title_arg app_version openapi_version info (Some t)) = [(''name'', VStr t)]"
    by (simp add: init_def)
qed

text \<open>The theorem at the build of the example application, whose handler gives no tags.\<close>

theorem registered_operations_have_tags_witness:
  "application_to_apispec example_automd example_environment example_application = Inr example_document
   \<and> [] \<notin> operation_tags ` set (all_operations example_document)
   \<and> map operation_tags (all_operations example_document) = [[[(''name'', VStr ''App'')]]]"
proof -
  from registered_operations_have_tags [of example_automd example_environment example_application]
    example_build
  have "\<forall>op \<in> set (all_operations example_document). operation_tags op \<noteq> []" by blast
  then have "[] \<notin> operation_tags ` set (all_operations example_document)" by force
  moreover have "map operation_tags (all_operations example_document) = [[[(''name'', VStr ''App'')]]]"
    by (simp add: all_operations_def example_document_def)
  ultimately show ?thesis using example_build by blast
qed

text \<open>
  C8. A second \<open>register_path\<close> with the same arguments returns the document of the first
  unchanged. A second \<open>register_path\<close> for the same path and a verb with the same
  lower-case form, with any other arguments that register at all (on some document
  \<open>other\<close>), registers on the document of the first as well, and the operation then
  stored under the path and verb is the one that those arguments alone produce.
\<close>

theorem reregistration_overwrites:
  "(\<forall>first.
      register_path self E api_spec path_url http_verb response_code summary description
        parameter_object response_object func_signature tags = Inr first
      \<longrightarrow> register_path self E first path_url http_verb response_code summary description
            parameter_object response_object func_signature tags = Inr first)
   \<and> (\<forall>first other alone.
        register_path self E api_spec path_url http_verb response_code summary description
          parameter_object response_object func_signature tags = Inr first
        \<and> lower http_verb' = lower http_verb
        \<and> register_path self E other path_url http_verb' response_code' summary' description'
            parameter_object' response_object' func_signature' tags' = Inr alone
        \<longrightarrow> (\<exists>second.
               register_path self E first path_url http_verb' response_code' summary' description'
                 parameter_object' response_object' func_signature' tags' = Inr second
               \<and> operation_at second path_url (lower http_verb)
                   = operation_at alone path_url (lower http_verb)))"
proof (intro conjI allI impI)
  fix first
  assume "register_path self E api_spec path_url http_verb response_code summary description
        parameter_object response_object func_signature tags = Inr first"
  then obtain ps rs ct phrase where
    parts: "parse_parameter_schema E parameter_object func_signature path_url http_verb = Inr ps"
      "parse_response_schema E response_object path_url http_verb = Inr (rs, ct)"
      "responses E response_code = Some phrase"
    and doc: "first = path api_spec path_url
                       (operations self http_verb response_code phrase ct rs
                          [\<lparr>entry_in = ''query'', entry_name = Some ''test'', entry_schema = ps\<rparr>]
                          summary description tags)"
    unfolding register_path_Inr by blast
  from operations_singleton [of self http_verb response_code phrase ct rs _ summary description tags]
  obtain new where new: "operations self http_verb response_code phrase ct rs
                          [\<lparr>entry_in = ''query'', entry_name = Some ''test'', entry_schema = ps\<rparr>]
                          summary description tags = [(lower http_verb, new)]" by blast
  have "path first path_url [(lower http_verb, new)] = first"
    unfolding doc new by (rule path_twice)
  with parts new show "register_path self E first path_url http_verb response_code summary description
            parameter_object response_object func_signature tags = Inr first"
    unfolding register_path_Inr by simp
next
  fix first other alone
  assume a: "register_path self E api_spec path_url http_verb response_code summary description
          parameter_object response_object func_signature tags = Inr first
        \<and> lower http_verb' = lower http_verb
        \<and> register_path self E other path_url http_verb' response_code' summary' description'
            parameter_object' response_object' func_signature' tags' = Inr alone"
  then obtain ps rs ct phrase where
    parts: "parse_parameter_schema E parameter_object' func_signature' path_url http_verb' = Inr ps"
      "parse_response_schema E response_object' path_url http_verb' = Inr (rs, ct)"
      "responses E response_code' = Some phrase"
    and doc: "alone = path other path_url
                       (operations self http_verb' response_code' phrase ct rs
                          [\<lparr>entry_in = ''query'', entry_name = Some ''test'', entry_schema = ps\<rparr>]
                          summary' description' tags')"
    unfolding register_path_Inr by blast
  from operations_singleton [of self http_verb' response_code' phrase ct rs _ summary' description' tags']
  obtain new where new: "operations self http_verb' response_code' phrase ct rs
                          [\<lparr>entry_in = ''query'', entry_name = Some ''test'', entry_schema = ps\<rparr>]
                          summary' description' tags' = [(lower http_verb', new)]" by blast
  let ?second = "path first path_url [(lower http_verb', new)]"
  have 1: "register_path self E first path_url http_verb' response_code' summary' description'
                 parameter_object' response_object' func_signature' tags' = Inr ?second"
    unfolding register_path_Inr using parts new by simp
  have 2: "operation_at ?second path_url (lower http_verb) = operation_at alone path_url (lower http_verb)"
    unfolding doc new using a by (simp add: operation_at_path)
  from 1 2 show "\<exists>second.
               register_path self E first path_url http_verb' response_code' summary' description'
                 parameter_object' response_object' func_signature' tags' = Inr second
               \<and> operation_at second path_url (lower http_verb)
                   = operation_at alone path_url (lower http_verb)" by blast
qed

text \<open>
  The theorem at the registration of \<open>GET /status\<close> on a fresh document, registered a
  second time, and then registered as \<open>get\<close> with another summary.
\<close>

theorem reregistration_overwrites_witness:
  "register_path example_automd example_environment (start_spec example_automd) ''/status'' ''GET''
     200 (Some ''Status Endpoint'') None None JSONResponse (Some hello_signature) None
     = Inr example_document
   \<and> register_path example_automd example_environment example_document ''/status'' ''GET''
       200 (Some ''Status Endpoint'') None None JSONResponse (Some hello_signature) None
       = Inr example_document
   \<and> (\<exists>second.
         register_path example_automd example_environment example_document ''/status'' ''get''
           200 (Some ''Second'') None None JSONResponse (Some hello_signature) None
           = Inr second
         \<and> operation_at second ''/status'' (lower ''GET'')
             = operation_at overwritten_document ''/status'' (lower ''GET''))"
proof -
  note t = reregistration_overwrites [of example_automd example_environment "start_spec example_automd"
      "''/status''" "''GET''" 200 "Some ''Status Endpoint''" None None JSONResponse
      "Some hello_signature" None "''get''" 200 "Some ''Second''" None None JSONResponse
      "Some hello_signature" None]
  from t example_registration(1)
  have 1: "register_path example_automd example_environment example_document ''/status'' ''GET''
       200 (Some ''Status Endpoint'') None None JSONResponse (Some hello_signature) None
       = Inr example_document" by blast
  from t example_registration
  have 2: "\<exists>second.
         register_path example_automd example_environment example_document ''/status'' ''get''
           200 (Some ''Second'') None None JSONResponse (Some hello_signature) None
           = Inr second
         \<and> operation_at second ''/status'' (lower ''GET'')
             = operation_at overwritten_document ''/status'' (lower ''GET'')" by blast
  from example_registration(1) 1 2 show ?thesis by blast
qed



text \<open>
  C10. For the descriptor \<open>None\<close>, which is not a key of either variant's table and has
  no \<open>_name\<close>: \<open>AutoMD.parse_response_schema\<close> returns the synthesised empty schema with
  the default content type, and \<open>AutoMD.register_path\<close> returns a document whenever its
  parameter step and the status phrase succeed, whereas \<open>AutoAPI.register_path\<close>
  resolves the interface \<open>None\<close>, whose \<open>to_schema\<close> raises \<open>AttributeError\<close>, and
  fails with \<open>AttributeError\<close> for every other argument.
\<close>

theorem null_descriptor_variants_differ:
  assumes "response_object_type_map E_automd PyNone = None"
    and "response_object_type_map E_autoapi PyNone = None"
  shows "parse_response_schema E_automd PyNone path_url http_verb
           = Inr (\<lparr>schema_name = url_name path_url @ title http_verb @ ''ResponseSchema'',
                   declared_fields = []\<rparr>,
                  default_content_type)
       \<and> response_interface E_autoapi PyNone = Inr PyNone
       \<and> call_to_schema PyNone = Inl AttributeError
       \<and> autoapi_register_path self E_autoapi api_spec path_url http_verb response_code summary
             description parameter_object PyNone tags
           = Inl AttributeError
       \<and> (\<forall>ps phrase.
             parse_parameter_schema E_automd parameter_object func_signature path_url http_verb = Inr ps
             \<and> responses E_automd response_code = Some phrase
             \<longrightarrow> (\<exists>api_spec'. register_path self E_automd api_spec path_url http_verb response_code
                                 summary description parameter_object PyNone func_signature tags
                               = Inr api_spec'))"
proof (intro conjI allI impI)
  show "parse_response_schema E_automd PyNone path_url http_verb
           = Inr (\<lparr>schema_name = url_name path_url @ title http_verb @ ''ResponseSchema'',
                   declared_fields = []\<rparr>,
                  default_content_type)"
    using assms(1) by (simp add: parse_response_schema_def response_interface_def from_dict_def)
  show ri: "response_interface E_autoapi PyNone = Inr PyNone"
    using assms(2) by (simp add: response_interface_def)
  show "call_to_schema PyNone = Inl AttributeError" by simp
  show "autoapi_register_path self E_autoapi api_spec path_url http_verb response_code summary
             description parameter_object PyNone tags
           = Inl AttributeError"
    by (simp add: autoapi_register_path_def ri Let_def split: option.splits param_object.splits)
next
  fix ps phrase
  assume "parse_parameter_schema E_automd parameter_object func_signature path_url http_verb = Inr ps
             \<and> responses E_automd response_code = Some phrase"
  then show "\<exists>api_spec'. register_path self E_automd api_spec path_url http_verb response_code
                                 summary description parameter_object PyNone func_signature tags
                               = Inr api_spec'"
    using assms(1)
    by (simp add: register_path_def parse_response_schema_def response_interface_def getitem_def)
qed

text \<open>The theorem at the path \<open>/status\<close>, the verb \<open>GET\<close> and no parameters.\<close>

theorem null_descriptor_variants_differ_witness:
  "response_object_type_map example_environment PyNone = None
   \<and> parse_response_schema example_environment PyNone ''/status'' ''GET''
       = Inr (\<lparr>schema_name = ''StatusGetResponseSchema'', declared_fields = []\<rparr>, ''text/plain'')
   \<and> autoapi_register_path (init ''App'' ''1.0.0'' ''3.0.0'' None None) example_environment
         (start_spec (init ''App'' ''1.0.0'' ''3.0.0'' None None)) ''/status'' ''GET'' 200 None None
         (Some (ParamDict [])) PyNone None
       = Inl AttributeError
   \<and> (\<exists>api_spec'. register_path (init ''App'' ''1.0.0'' ''3.0.0'' None None) example_environment
         (start_spec (init ''App'' ''1.0.0'' ''3.0.0'' None None)) ''/status'' ''GET'' 200 None None
         (Some (ParamDict [])) PyNone None None
       = Inr api_spec')"
proof -
  note h = example_table(1)
  have t: "url_name ''/status'' @ title ''GET'' @ ''ResponseSchema'' = ''StatusGetResponseSchema''"
    by code_simp
  have p: "parse_parameter_schema example_environment (Some (ParamDict [])) None ''/status'' ''GET''
             = Inr \<lparr>Meta_include = []\<rparr>"
    by (simp add: parse_parameter_schema_def)
  have r: "responses example_environment 200 = Some ''OK''"
    by (simp add: example_environment_def)
  note n = null_descriptor_variants_differ [OF h h,
      of "''/status''" "''GET''" "init ''App'' ''1.0.0'' ''3.0.0'' None None"
         "start_spec (init ''App'' ''1.0.0'' ''3.0.0'' None None)" 200 None None
         "Some (ParamDict [])" None None]
  from n have 1: "parse_response_schema example_environment PyNone ''/status'' ''GET''
       = Inr (\<lparr>schema_name = ''StatusGetResponseSchema'', declared_fields = []\<rparr>, ''text/plain'')"
    unfolding t default_content_type_def by blast
  from n have 2: "autoapi_register_path (init ''App'' ''1.0.0'' ''3.0.0'' None None) example_environment
         (start_spec (init ''App'' ''1.0.0'' ''3.0.0'' None None)) ''/status'' ''GET'' 200 None None
         (Some (ParamDict [])) PyNone None
       = Inl AttributeError" by blast
  from n p r have 3: "\<exists>api_spec'. register_path (init ''App'' ''1.0.0'' ''3.0.0'' None None) example_environment
         (start_spec (init ''App'' ''1.0.0'' ''3.0.0'' None None)) ''/status'' ''GET'' 200 None None
         (Some (ParamDict [])) PyNone None None
       = Inr api_spec'" by blast
  from h 1 2 3 show ?thesis by blast
qed

end
